theory Spec2Isabelle
  imports Main "HOL-Library.AList"
begin

section \<open>Strings of code points\<close>

text \<open>
  A Python \<open>str\<close> is a sequence of Unicode code points, so a text is a list of natural
  numbers. String literals of the source are written \<open>ords ''...''\<close>.
\<close>

type_synonym pystr = "nat list"

definition ords :: "string \<Rightarrow> pystr" where
  "ords s = map of_char s"

text \<open>
  \<open>is_space\<close> is the set of code points for which \<open>str.isspace\<close>, \<open>str.strip\<close> and the
  regular expression class \<open>\s\<close> agree; \<open>is_linebreak\<close> is the set at which
  \<open>str.splitlines\<close> cuts.
\<close>

definition is_space :: "nat \<Rightarrow> bool" where
  "is_space c \<longleftrightarrow>
     (9 \<le> c \<and> c \<le> 13) \<or> (28 \<le> c \<and> c \<le> 32) \<or> c = 133 \<or> c = 160 \<or> c = 5760 \<or>
     (8192 \<le> c \<and> c \<le> 8202) \<or> c = 8232 \<or> c = 8233 \<or> c = 8239 \<or> c = 8287 \<or> c = 12288"

definition is_linebreak :: "nat \<Rightarrow> bool" where
  "is_linebreak c \<longleftrightarrow>
     (10 \<le> c \<and> c \<le> 13) \<or> (28 \<le> c \<and> c \<le> 30) \<or> c = 133 \<or> c = 8232 \<or> c = 8233"

text \<open>
  The class \<open>\w\<close> is the underscore and every alphanumeric code point. On ASCII that is
  fixed; beyond ASCII it is the alphanumeric table of the Unicode database of the running
  interpreter, which is taken as the parameter \<open>W\<close>.
\<close>

definition is_word :: "(nat \<Rightarrow> bool) \<Rightarrow> nat \<Rightarrow> bool" where
  "is_word W c \<longleftrightarrow>
     (48 \<le> c \<and> c \<le> 57) \<or> (65 \<le> c \<and> c \<le> 90) \<or> (97 \<le> c \<and> c \<le> 122) \<or> c = 95 \<or>
     (128 \<le> c \<and> W c)"

definition is_digit :: "nat \<Rightarrow> bool" where
  "is_digit c \<longleftrightarrow> 48 \<le> c \<and> c \<le> 57"

definition not_quote :: "nat \<Rightarrow> bool" where
  "not_quote c \<longleftrightarrow> c \<noteq> 39"

definition strip :: "pystr \<Rightarrow> pystr" where
  "strip s = rev (dropWhile is_space (rev (dropWhile is_space s)))"

definition startswith :: "pystr \<Rightarrow> pystr \<Rightarrow> bool" where
  "startswith s p \<longleftrightarrow> take (length p) s = p"

text \<open>
  \<open>str.splitlines\<close>: every line break ends a line (CR LF counts once), the breaks are
  dropped, and no empty line is reported after the last break.
\<close>

fun splitlines_from :: "pystr \<Rightarrow> pystr \<Rightarrow> pystr list" where
  "splitlines_from cur [] = (if cur = [] then [] else [cur])"
| "splitlines_from cur (x # xs) =
     (if is_linebreak x then
        cur # (case xs of
                 [] \<Rightarrow> splitlines_from [] xs
               | y # ys \<Rightarrow> if x = 13 \<and> y = 10 then splitlines_from [] ys
                           else splitlines_from [] xs)
      else splitlines_from (cur @ [x]) xs)"

definition splitlines :: "pystr \<Rightarrow> pystr list" where
  "splitlines s = splitlines_from [] s"

text \<open>Python's \<open>a or b\<close> on strings: the first operand unless it is empty.\<close>

definition py_or :: "pystr \<Rightarrow> pystr \<Rightarrow> pystr" where
  "py_or a b = (if a \<noteq> [] then a else b)"

section \<open>Regular expressions of the \<open>re\<close> module\<close>

text \<open>
  The fragment of the pattern language that the program uses: literal text, a character
  class, concatenation, the greedy \<open>?\<close> and \<open>*\<close>, the lazy \<open>*?\<close>, and a numbered capturing
  group. \<open>x+\<close> is \<open>x\<close> followed by \<open>x*\<close>.
\<close>

datatype re =
    Lit pystr
  | Cls "nat \<Rightarrow> bool"
  | Seq re re
  | Opt re
  | Star re
  | LazyStar re
  | Grp nat re

definition Plus :: "re \<Rightarrow> re" where
  "Plus r = Seq r (Star r)"

fun seqs :: "re list \<Rightarrow> re" where
  "seqs [] = Lit []"
| "seqs [r] = r"
| "seqs (r # rs) = Seq r (seqs rs)"

type_synonym caps = "(nat \<times> pystr) list"

text \<open>
  \<open>ms r s c\<close> lists, in the order in which the backtracking matcher tries them, every way
  in which \<open>r\<close> matches a prefix of \<open>s\<close>, as the remaining text and the groups captured so
  far. A greedy repetition tries one more iteration before it tries to stop; the lazy
  one stops first. An iteration that consumes nothing is not repeated.
\<close>

function ms :: "re \<Rightarrow> pystr \<Rightarrow> caps \<Rightarrow> (pystr \<times> caps) list" where
  "ms (Lit w) s c = (if take (length w) s = w then [(drop (length w) s, c)] else [])"
| "ms (Cls P) s c = (case s of [] \<Rightarrow> [] | x # xs \<Rightarrow> if P x then [(xs, c)] else [])"
| "ms (Seq a b) s c = concat (map (\<lambda>p. ms b (fst p) (snd p)) (ms a s c))"
| "ms (Opt r) s c = ms r s c @ [(s, c)]"
| "ms (Star r) s c =
     concat (map (\<lambda>p. if length (fst p) < length s then ms (Star r) (fst p) (snd p) else [])
                 (ms r s c)) @ [(s, c)]"
| "ms (LazyStar r) s c =
     (s, c) # concat (map (\<lambda>p. if length (fst p) < length s
                                 then ms (LazyStar r) (fst p) (snd p) else [])
                          (ms r s c))"
| "ms (Grp n r) s c =
     map (\<lambda>p. (fst p, AList.update n (take (length s - length (fst p)) s) (snd p)))
         (ms r s c)"
  by pat_completeness auto
termination
  by (relation "measures [\<lambda>(r, s, c). size r, \<lambda>(r, s, c). length s]") auto

declare ms.simps [simp del]

text \<open>The match the engine reports at one position: the first entry of \<open>ms\<close>.\<close>

definition match_at :: "re \<Rightarrow> pystr \<Rightarrow> (pystr \<times> caps) option" where
  "match_at r s = (case ms r s [] of [] \<Rightarrow> None | x # _ \<Rightarrow> Some x)"

text \<open>\<open>re.search\<close>: the match at the leftmost position that has one.\<close>

fun re_search :: "re \<Rightarrow> pystr \<Rightarrow> caps option" where
  "re_search r [] = (case match_at r [] of None \<Rightarrow> None | Some m \<Rightarrow> Some (snd m))"
| "re_search r (x # xs) =
     (case match_at r (x # xs) of None \<Rightarrow> re_search r xs | Some m \<Rightarrow> Some (snd m))"

text \<open>
  The scan of \<open>re.findall\<close>: successive leftmost matches that do not overlap. \<open>k\<close> counts
  the code points of the previous match that are still to be passed over. After a match
  of length zero the scan resumes one code point later.
\<close>

fun finditer_from :: "re \<Rightarrow> nat \<Rightarrow> pystr \<Rightarrow> caps list" where
  "finditer_from r k [] =
     (if k = 0 then (case match_at r [] of None \<Rightarrow> [] | Some m \<Rightarrow> [snd m]) else [])"
| "finditer_from r k (x # xs) =
     (if 0 < k then finditer_from r (k - 1) xs
      else (case match_at r (x # xs) of
              None \<Rightarrow> finditer_from r 0 xs
            | Some m \<Rightarrow> snd m # finditer_from r (length xs - length (fst m)) xs))"

definition finditer :: "re \<Rightarrow> pystr \<Rightarrow> caps list" where
  "finditer r s = finditer_from r 0 s"

text \<open>\<open>group m n\<close> is the text of group \<open>n\<close>, empty where the group took no part.\<close>

definition group :: "caps \<Rightarrow> nat \<Rightarrow> pystr" where
  "group m n = (case map_of m n of None \<Rightarrow> [] | Some v \<Rightarrow> v)"

definition findall1 :: "re \<Rightarrow> pystr \<Rightarrow> pystr list" where
  "findall1 r s = map (\<lambda>m. group m 1) (finditer r s)"

definition findall2 :: "re \<Rightarrow> pystr \<Rightarrow> (pystr \<times> pystr) list" where
  "findall2 r s = map (\<lambda>m. (group m 1, group m 2)) (finditer r s)"

section \<open>The patterns of \<open>parse_aapt2_output\<close>\<close>

text \<open>
  Each pattern is transcribed from the source; the raw pattern is quoted above its
  definition. \<open>quote\<close> is the single quote, \<open>sp\<close> is \<open>\s\<close>, \<open>nq\<close> is \<open>[^']\<close>.
\<close>

definition quote :: re where
  "quote = Lit [39]"

definition sp :: re where
  "sp = Cls is_space"

definition nq :: re where
  "nq = Cls not_quote"

text \<open>\<^verbatim>\<open>package:\s+name='([^']+)'\s+versionCode='([^']+)'\s+versionName='([^']+)'.*?\<close>
  under \<open>re.S\<close>, where the dot stands for every code point.\<close>

definition pat_pkg :: re where
  "pat_pkg = seqs [Lit (ords ''package:''), Plus sp,
                   Lit (ords ''name=''), quote, Grp 1 (Plus nq), quote, Plus sp,
                   Lit (ords ''versionCode=''), quote, Grp 2 (Plus nq), quote, Plus sp,
                   Lit (ords ''versionName=''), quote, Grp 3 (Plus nq), quote,
                   LazyStar (Cls (\<lambda>c. True))]"

text \<open>\<^verbatim>\<open>platformBuildVersionName='([^']+)'\<close>\<close>

definition pat_plat :: re where
  "pat_plat = seqs [Lit (ords ''platformBuildVersionName=''), quote, Grp 1 (Plus nq), quote]"

text \<open>\<^verbatim>\<open>platformBuildVersionCode='([^']+)'\<close>\<close>

definition pat_platc :: re where
  "pat_platc = seqs [Lit (ords ''platformBuildVersionCode=''), quote, Grp 1 (Plus nq), quote]"

text \<open>\<^verbatim>\<open>compileSdkVersion='([^']+)'\<close>\<close>

definition pat_compile :: re where
  "pat_compile = seqs [Lit (ords ''compileSdkVersion=''), quote, Grp 1 (Plus nq), quote]"

text \<open>\<^verbatim>\<open>compileSdkVersionCodename='([^']+)'\<close>\<close>

definition pat_compile_code :: re where
  "pat_compile_code =
     seqs [Lit (ords ''compileSdkVersionCodename=''), quote, Grp 1 (Plus nq), quote]"

text \<open>\<^verbatim>\<open>minSdkVersion:'([^']+)'\<close>\<close>

definition pat_min :: re where
  "pat_min = seqs [Lit (ords ''minSdkVersion:''), quote, Grp 1 (Plus nq), quote]"

text \<open>\<^verbatim>\<open>targetSdkVersion:'([^']+)'\<close>\<close>

definition pat_target :: re where
  "pat_target = seqs [Lit (ords ''targetSdkVersion:''), quote, Grp 1 (Plus nq), quote]"

text \<open>\<^verbatim>\<open>application-label-([\w-]+):'([^']*)'\<close>\<close>

definition pat_label_loc :: "(nat \<Rightarrow> bool) \<Rightarrow> re" where
  "pat_label_loc W =
     seqs [Lit (ords ''application-label-''), Grp 1 (Plus (Cls (\<lambda>c. is_word W c \<or> c = 45))),
           Lit (ords '':''), quote, Grp 2 (Star nq), quote]"

text \<open>\<^verbatim>\<open>application-label:'([^']*)'\<close>\<close>

definition pat_label_generic :: re where
  "pat_label_generic = seqs [Lit (ords ''application-label:''), quote, Grp 1 (Star nq), quote]"

text \<open>\<^verbatim>\<open>application:\s+label='([^']*)'\<close>\<close>

definition pat_label_app :: re where
  "pat_label_app =
     seqs [Lit (ords ''application:''), Plus sp, Lit (ords ''label=''), quote,
           Grp 1 (Star nq), quote]"

text \<open>\<^verbatim>\<open>launchable-activity:\s+name='([^']*)'(?:\s+label='([^']*)')?\<close>\<close>

definition pat_launch :: re where
  "pat_launch =
     seqs [Lit (ords ''launchable-activity:''), Plus sp, Lit (ords ''name=''), quote,
           Grp 1 (Star nq), quote,
           Opt (seqs [Plus sp, Lit (ords ''label=''), quote, Grp 2 (Star nq), quote])]"

text \<open>\<^verbatim>\<open>uses-permission:\s+name='([^']+)'\<close>\<close>

definition pat_permission :: re where
  "pat_permission =
     seqs [Lit (ords ''uses-permission:''), Plus sp, Lit (ords ''name=''), quote,
           Grp 1 (Plus nq), quote]"

text \<open>\<^verbatim>\<open>uses-feature:\s+name='([^']+)'\<close>\<close>

definition pat_feature :: re where
  "pat_feature =
     seqs [Lit (ords ''uses-feature:''), Plus sp, Lit (ords ''name=''), quote,
           Grp 1 (Plus nq), quote]"

text \<open>\<^verbatim>\<open>uses-implied-feature:\s+name='([^']+)'\<close>\<close>

definition pat_implied :: re where
  "pat_implied =
     seqs [Lit (ords ''uses-implied-feature:''), Plus sp, Lit (ords ''name=''), quote,
           Grp 1 (Plus nq), quote]"

text \<open>The run of quoted tokens \<^verbatim>\<open>((?:'[^']+'\s*)+)\<close> that three patterns share.\<close>

definition token_run :: re where
  "token_run = Grp 1 (Plus (seqs [quote, Plus nq, quote, Star sp]))"

text \<open>\<^verbatim>\<open>supports-screens:\s+((?:'[^']+'\s*)+)\<close>\<close>

definition pat_screens :: re where
  "pat_screens = seqs [Lit (ords ''supports-screens:''), Plus sp, token_run]"

text \<open>\<^verbatim>\<open>supports-any-density:\s+'([^']+)'\<close>\<close>

definition pat_anyden :: re where
  "pat_anyden =
     seqs [Lit (ords ''supports-any-density:''), Plus sp, quote, Grp 1 (Plus nq), quote]"

text \<open>\<^verbatim>\<open>densities:\s+((?:'[^']+'\s*)+)\<close>\<close>

definition pat_dens :: re where
  "pat_dens = seqs [Lit (ords ''densities:''), Plus sp, token_run]"

text \<open>\<^verbatim>\<open>locales:\s+((?:'[^']+'\s*)+)\<close>\<close>

definition pat_loc :: re where
  "pat_loc = seqs [Lit (ords ''locales:''), Plus sp, token_run]"

text \<open>\<^verbatim>\<open>'([^']+)'\<close>\<close>

definition pat_quoted :: re where
  "pat_quoted = seqs [quote, Grp 1 (Plus nq), quote]"

text \<open>\<^verbatim>\<open>application-icon-([0-9]+):'([^']+)'\<close>\<close>

definition pat_icon :: re where
  "pat_icon =
     seqs [Lit (ords ''application-icon-''), Grp 1 (Plus (Cls is_digit)), Lit (ords '':''),
           quote, Grp 2 (Plus nq), quote]"

section \<open>The parser\<close>

text \<open>
  The dictionary \<open>info\<close> has a fixed set of keys, so it is a record. The two nested
  dictionaries keep insertion order and are association lists: \<open>AList.update\<close> replaces
  the value of a key that is present where it stands and appends a new key, as an
  assignment to a \<open>dict\<close> entry does.
\<close>

record info =
  package_name :: pystr
  version_name :: pystr
  version_code :: pystr
  platform_build_version_name :: pystr
  platform_build_version_code :: pystr
  compile_sdk_version :: pystr
  compile_sdk_codename :: pystr
  min_sdk :: pystr
  target_sdk :: pystr
  app_name :: pystr
  app_name_labels :: "(pystr \<times> pystr) list"
  launchable_activity :: pystr
  permissions :: "pystr list"
  features :: "pystr list"
  implied_features :: "pystr list"
  supports_screens :: "pystr list"
  supports_any_density :: pystr
  densities :: "pystr list"
  locales :: "pystr list"
  icons :: "(pystr \<times> pystr) list"
  raw :: pystr
  architectures :: "pystr list"

definition initial_info :: "pystr \<Rightarrow> info" where
  "initial_info text =
     \<lparr>package_name = [], version_name = [], version_code = [],
      platform_build_version_name = [], platform_build_version_code = [],
      compile_sdk_version = [], compile_sdk_codename = [], min_sdk = [], target_sdk = [],
      app_name = [], app_name_labels = [], launchable_activity = [], permissions = [],
      features = [], implied_features = [], supports_screens = [],
      supports_any_density = [], densities = [], locales = [], icons = [],
      raw = strip text, architectures = []\<rparr>"

text \<open>The loop \<open>for loc, label in re.findall(...)\<close> that fills a nested dictionary.\<close>

definition store_all :: "(pystr \<times> pystr) list \<Rightarrow> (pystr \<times> pystr) list" where
  "store_all kvs = fold (\<lambda>kv d. AList.update (fst kv) (snd kv) d) kvs []"

text \<open>
  The loop \<open>for pref in ("zh-CN", "zh-HK", "zh-TW")\<close>: the first preferred locale whose
  label is present and not empty gives the name and ends the loop; the name stays empty
  when there is none.
\<close>

fun pref_loop :: "(pystr \<times> pystr) list \<Rightarrow> pystr list \<Rightarrow> pystr" where
  "pref_loop labels [] = []"
| "pref_loop labels (pref # prefs) =
     (case map_of labels pref of
        None \<Rightarrow> pref_loop labels prefs
      | Some v \<Rightarrow> if v \<noteq> [] then v else pref_loop labels prefs)"

definition dict_get :: "(pystr \<times> pystr) list \<Rightarrow> pystr \<Rightarrow> pystr \<Rightarrow> pystr" where
  "dict_get d k dflt = (case map_of d k of None \<Rightarrow> dflt | Some v \<Rightarrow> v)"

text \<open>The loop over \<open>text.splitlines()\<close> that collects the architectures.\<close>

fun arch_loop :: "pystr list \<Rightarrow> pystr list \<Rightarrow> pystr list" where
  "arch_loop archs [] = archs"
| "arch_loop archs (line # lines) =
     (let line = strip line in
      if startswith line (ords ''native-code:'') \<or> startswith line (ords ''alt-native-code:'')
      then arch_loop (archs @ findall1 pat_quoted line) lines
      else arch_loop archs lines)"

definition parse_aapt2_output :: "(nat \<Rightarrow> bool) \<Rightarrow> pystr \<Rightarrow> info" where
  "parse_aapt2_output W text =
    (let info = initial_info text;
         info = (case re_search pat_pkg text of
                   None \<Rightarrow> info
                 | Some m \<Rightarrow> info\<lparr>package_name := group m 1, version_code := group m 2,
                                  version_name := group m 3\<rparr>);
         info = (case re_search pat_plat text of
                   None \<Rightarrow> info
                 | Some m \<Rightarrow> info\<lparr>platform_build_version_name := group m 1\<rparr>);
         info = (case re_search pat_platc text of
                   None \<Rightarrow> info
                 | Some m \<Rightarrow> info\<lparr>platform_build_version_code := group m 1\<rparr>);
         info = (case re_search pat_compile text of
                   None \<Rightarrow> info
                 | Some m \<Rightarrow> info\<lparr>compile_sdk_version := group m 1\<rparr>);
         info = (case re_search pat_compile_code text of
                   None \<Rightarrow> info
                 | Some m \<Rightarrow> info\<lparr>compile_sdk_codename := group m 1\<rparr>);
         info = (case re_search pat_min text of
                   None \<Rightarrow> info
                 | Some m \<Rightarrow> info\<lparr>min_sdk := group m 1\<rparr>);
         info = (case re_search pat_target text of
                   None \<Rightarrow> info
                 | Some m \<Rightarrow> info\<lparr>target_sdk := group m 1\<rparr>);
         info = info\<lparr>app_name_labels := store_all (findall2 (pat_label_loc W) text)\<rparr>;
         generic_label = (case re_search pat_label_generic text of
                            None \<Rightarrow> []
                          | Some m \<Rightarrow> group m 1);
         app_node_label = (case re_search pat_label_app text of
                             None \<Rightarrow> []
                           | Some m \<Rightarrow> group m 1);
         info = info\<lparr>app_name :=
                  pref_loop (app_name_labels info)
                    [ords ''zh-CN'', ords ''zh-HK'', ords ''zh-TW'']\<rparr>;
         info = (if app_name info = []
                 then info\<lparr>app_name :=
                        py_or generic_label
                          (py_or (dict_get (app_name_labels info) (ords ''zh'') [])
                                 app_node_label)\<rparr>
                 else info);
         info = (case re_search pat_launch text of
                   None \<Rightarrow> info
                 | Some m \<Rightarrow> info\<lparr>launchable_activity := group m 1\<rparr>);
         info = info\<lparr>permissions := findall1 pat_permission text\<rparr>;
         info = info\<lparr>features := findall1 pat_feature text\<rparr>;
         info = info\<lparr>implied_features := findall1 pat_implied text\<rparr>;
         info = (case re_search pat_screens text of
                   None \<Rightarrow> info
                 | Some m \<Rightarrow> info\<lparr>supports_screens := findall1 pat_quoted (group m 1)\<rparr>);
         info = (case re_search pat_anyden text of
                   None \<Rightarrow> info
                 | Some m \<Rightarrow> info\<lparr>supports_any_density := group m 1\<rparr>);
         info = (case re_search pat_dens text of
                   None \<Rightarrow> info
                 | Some m \<Rightarrow> info\<lparr>densities := findall1 pat_quoted (group m 1)\<rparr>);
         info = (case re_search pat_loc text of
                   None \<Rightarrow> info
                 | Some m \<Rightarrow> info\<lparr>locales := findall1 pat_quoted (group m 1)\<rparr>);
         info = info\<lparr>icons := store_all (findall2 pat_icon text)\<rparr>;
         info = info\<lparr>architectures := arch_loop [] (splitlines text)\<rparr>
     in info)"

section \<open>The display of an SDK level\<close>

text \<open>
  \<open>fmt_sdk\<close> is a closure over the table \<open>sdk_map\<close>; the table is its first argument here.
  \<open>None\<close> is Python's \<open>None\<close>, which \<open>not api_level\<close> treats as an empty string.
\<close>

definition fmt_sdk :: "(pystr \<rightharpoonup> pystr) \<Rightarrow> pystr option \<Rightarrow> pystr" where
  "fmt_sdk sdk_map api_level =
     (case api_level of
        None \<Rightarrow> ords ''?''
      | Some l \<Rightarrow>
          if l = [] \<or> l = ords ''?'' then ords ''?''
          else (case sdk_map l of
                  Some v \<Rightarrow> l @ ords ''('' @ v @ ords '')''
                | None \<Rightarrow> l))"

text \<open>
  The display sorts the icons with \<open>sorted(icons.items(), key=lambda x: int(x[0]))\<close>.
  \<open>int_of_digits\<close> is \<open>int\<close> on a string of ASCII digits, and \<open>sorted\<close> is stable.
\<close>

definition int_of_digits :: "pystr \<Rightarrow> int" where
  "int_of_digits s = fold (\<lambda>d n. 10 * n + (int d - 48)) s 0"

definition sorted_icons :: "(pystr \<times> pystr) list \<Rightarrow> (pystr \<times> pystr) list" where
  "sorted_icons d = sort_key (\<lambda>x. int_of_digits (fst x)) d"

section \<open>Static facts about a pattern\<close>

text \<open>
  \<open>needs q r\<close>: every text that \<open>r\<close> matches contains the code point \<open>q\<close>.
  \<open>groups r\<close>: the group numbers that occur in \<open>r\<close>.
  \<open>consumes r\<close>: every match of \<open>r\<close> takes at least one code point.
  \<open>binds n r\<close>: every match of \<open>r\<close> leaves group \<open>n\<close> set to a text that is not empty.
\<close>

fun needs :: "nat \<Rightarrow> re \<Rightarrow> bool" where
  "needs q (Lit w) = (q \<in> set w)"
| "needs q (Cls P) = False"
| "needs q (Seq a b) = (needs q a \<or> needs q b)"
| "needs q (Opt r) = False"
| "needs q (Star r) = False"
| "needs q (LazyStar r) = False"
| "needs q (Grp n r) = needs q r"

fun groups :: "re \<Rightarrow> nat set" where
  "groups (Lit w) = {}"
| "groups (Cls P) = {}"
| "groups (Seq a b) = groups a \<union> groups b"
| "groups (Opt r) = groups r"
| "groups (Star r) = groups r"
| "groups (LazyStar r) = groups r"
| "groups (Grp n r) = insert n (groups r)"

fun consumes :: "re \<Rightarrow> bool" where
  "consumes (Lit w) = (w \<noteq> [])"
| "consumes (Cls P) = True"
| "consumes (Seq a b) = (consumes a \<or> consumes b)"
| "consumes (Opt r) = False"
| "consumes (Star r) = False"
| "consumes (LazyStar r) = False"
| "consumes (Grp n r) = consumes r"

fun binds :: "nat \<Rightarrow> re \<Rightarrow> bool" where
  "binds n (Lit w) = False"
| "binds n (Cls P) = False"
| "binds n (Seq a b) = (binds n b \<or> (binds n a \<and> n \<notin> groups b))"
| "binds n (Opt r) = False"
| "binds n (Star r) = False"
| "binds n (LazyStar r) = False"
| "binds n (Grp m r) = (m = n \<and> consumes r \<and> n \<notin> groups r)"

section \<open>The claims in the words of the specification\<close>

text \<open>
  The two labels that the parser keeps in local variables: the value of the first
  \<open>application-label:'...'\<close> and the label attribute of the first \<open>application:\<close> node,
  each empty when there is none.
\<close>

definition generic_label_of :: "pystr \<Rightarrow> pystr" where
  "generic_label_of text =
     (case re_search pat_label_generic text of None \<Rightarrow> [] | Some m \<Rightarrow> group m 1)"

definition app_node_label_of :: "pystr \<Rightarrow> pystr" where
  "app_node_label_of text =
     (case re_search pat_label_app text of None \<Rightarrow> [] | Some m \<Rightarrow> group m 1)"


text \<open>
  The architectures in the words of the specification: the lines that begin, once
  trimmed, with one of the two markers, and the quoted tokens of each, in line order.
\<close>

definition is_arch_line :: "pystr \<Rightarrow> bool" where
  "is_arch_line l \<longleftrightarrow>
     startswith (strip l) (ords ''native-code:'') \<or>
     startswith (strip l) (ords ''alt-native-code:'')"

definition arch_tokens :: "pystr \<Rightarrow> pystr list" where
  "arch_tokens text =
     concat (map (\<lambda>l. findall1 pat_quoted (strip l)) (filter is_arch_line (splitlines text)))"

text \<open>
  The patterns that the parser searches in the whole text, and what it means that none
  of them occurs: no search finds a match, and no architecture line holds a quoted
  token.
\<close>

definition recognized :: "(nat \<Rightarrow> bool) \<Rightarrow> re list" where
  "recognized W =
     [pat_pkg, pat_plat, pat_platc, pat_compile, pat_compile_code, pat_min, pat_target,
      pat_label_loc W, pat_label_generic, pat_label_app, pat_launch, pat_permission,
      pat_feature, pat_implied, pat_screens, pat_anyden, pat_dens, pat_loc, pat_icon]"

definition no_pattern_occurs :: "(nat \<Rightarrow> bool) \<Rightarrow> pystr \<Rightarrow> bool" where
  "no_pattern_occurs W text \<longleftrightarrow>
     (\<forall>r \<in> set (recognized W). re_search r text = None) \<and>
     (\<forall>l \<in> set (splitlines text). is_arch_line l \<longrightarrow> re_search pat_quoted (strip l) = None)"

text \<open>
  The package line in the words of the pattern: the marker, then the three attributes
  \<open>name\<close>, \<open>versionCode\<close> and \<open>versionName\<close> in this order, each value between single
  quotes, with \<open>ws1\<close>, \<open>ws2\<close> and \<open>ws3\<close> between them.
\<close>

definition package_line ::
  "pystr \<Rightarrow> pystr \<Rightarrow> pystr \<Rightarrow> pystr \<Rightarrow> pystr \<Rightarrow> pystr \<Rightarrow> pystr" where
  "package_line ws1 n ws2 vc ws3 vn =
     ords ''package:'' @ ws1 @ ords ''name='' @ [39] @ n @ [39] @ ws2 @
     ords ''versionCode='' @ [39] @ vc @ [39] @ ws3 @
     ords ''versionName='' @ [39] @ vn @ [39]"

text \<open>A value between quotes: it is not empty and holds no quote.\<close>

definition is_value :: "pystr \<Rightarrow> bool" where
  "is_value v \<longleftrightarrow> v \<noteq> [] \<and> 39 \<notin> set v"

text \<open>The whitespace that \<open>\s+\<close> takes: it is not empty.\<close>

definition is_blank :: "pystr \<Rightarrow> bool" where
  "is_blank ws \<longleftrightarrow> ws \<noteq> [] \<and> list_all is_space ws"

text \<open>
  \<open>unmatched r pre s\<close>: in the text \<open>pre @ s\<close> the pattern \<open>r\<close> matches at no position
  that lies in \<open>pre\<close>, so that a match which starts where \<open>s\<close> starts is the first one.
\<close>

fun unmatched :: "re \<Rightarrow> pystr \<Rightarrow> pystr \<Rightarrow> bool" where
  "unmatched r [] s = True"
| "unmatched r (x # pre) s = (match_at r (x # pre @ s) = None \<and> unmatched r pre s)"

text \<open>
  The two forms in which a key and a quoted value stand in the text: \<open>key:'value'\<close> and
  \<open>key='value'\<close>.
\<close>

definition colon_quoted :: "pystr \<Rightarrow> pystr \<Rightarrow> pystr" where
  "colon_quoted key v = key @ ords '':'' @ [39] @ v @ [39]"

definition equals_quoted :: "pystr \<Rightarrow> pystr \<Rightarrow> pystr" where
  "equals_quoted key v = key @ ords ''='' @ [39] @ v @ [39]"

text \<open>
  The table of SDK labels is keyed by API levels, which are numbers written in decimal:
  every key is a string of digits that is not empty.
\<close>

definition numeric_keys :: "(pystr \<rightharpoonup> pystr) \<Rightarrow> bool" where
  "numeric_keys sdk_map \<longleftrightarrow> (\<forall>k \<in> dom sdk_map. k \<noteq> [] \<and> list_all is_digit k)"

text \<open>
  The three patterns of the form \<^verbatim>\<open>marker\s+name='([^']+)'\<close>, and an occurrence of one in
  the words of the pattern: the marker, the whitespace \<open>ws\<close>, and the attribute \<open>name\<close>
  with its value \<open>v\<close> between quotes.
\<close>

definition pat_name :: "pystr \<Rightarrow> re" where
  "pat_name marker =
     seqs [Lit marker, Plus sp, Lit (ords ''name=''), quote, Grp 1 (Plus nq), quote]"

definition name_entry :: "pystr \<Rightarrow> pystr \<Rightarrow> pystr \<Rightarrow> pystr" where
  "name_entry marker ws v = marker @ ws @ ords ''name='' @ [39] @ v @ [39]"

text \<open>
  A text cut at its occurrences: each entry \<open>(gap, ws, v)\<close> is the text \<open>gap\<close> before an
  occurrence and the occurrence with whitespace \<open>ws\<close> and value \<open>v\<close>; \<open>tail\<close> is the text
  after the last one. The cut is the one that the scan of \<open>re.findall\<close> makes when every
  occurrence is well formed, no match starts in a gap, and the tail has no match.
\<close>

fun entries_text :: "pystr \<Rightarrow> (pystr \<times> pystr \<times> pystr) list \<Rightarrow> pystr \<Rightarrow> pystr" where
  "entries_text marker [] tail = tail"
| "entries_text marker (e # es) tail =
     fst e @ name_entry marker (fst (snd e)) (snd (snd e)) @ entries_text marker es tail"

fun entries_ok :: "pystr \<Rightarrow> (pystr \<times> pystr \<times> pystr) list \<Rightarrow> pystr \<Rightarrow> bool" where
  "entries_ok marker [] tail = (re_search (pat_name marker) tail = None)"
| "entries_ok marker (e # es) tail =
     (is_blank (fst (snd e)) \<and> is_value (snd (snd e)) \<and>
      unmatched (pat_name marker) (fst e)
        (name_entry marker (fst (snd e)) (snd (snd e)) @ entries_text marker es tail) \<and>
      entries_ok marker es tail)"

definition entry_values :: "(pystr \<times> pystr \<times> pystr) list \<Rightarrow> pystr list" where
  "entry_values es = map (\<lambda>e. snd (snd e)) es"






section \<open>The parser on a store of objects\<close>

text \<open>
  The parser fills dictionaries in place: \<open>info\<close> itself and the two dictionaries nested
  in it, which it reaches through \<open>info\<close> at every assignment. To say what a call does to
  the objects that exist before it, the objects live in a store: a list of objects, the
  reference of an object being its index, and a new object is put at the end. A string
  cannot be changed and a list is not changed once it is stored, so both are values
  inside the object that holds them. The dictionary \<open>info\<close> has a fixed set of keys, so the
  object is a record; its entries \<open>app_name_labels\<close> and \<open>icons\<close> are references.
\<close>

record cell =
  c_package_name :: pystr
  c_version_name :: pystr
  c_version_code :: pystr
  c_platform_build_version_name :: pystr
  c_platform_build_version_code :: pystr
  c_compile_sdk_version :: pystr
  c_compile_sdk_codename :: pystr
  c_min_sdk :: pystr
  c_target_sdk :: pystr
  c_app_name :: pystr
  c_app_name_labels :: nat
  c_launchable_activity :: pystr
  c_permissions :: "pystr list"
  c_features :: "pystr list"
  c_implied_features :: "pystr list"
  c_supports_screens :: "pystr list"
  c_supports_any_density :: pystr
  c_densities :: "pystr list"
  c_locales :: "pystr list"
  c_icons :: nat
  c_raw :: pystr
  c_architectures :: "pystr list"

datatype pyobj = ODict "(pystr \<times> pystr) list" | OInfo cell

type_synonym store = "pyobj list"

text \<open>A dictionary display or \<open>{}\<close> makes a new object.\<close>

definition new_obj :: "pyobj \<Rightarrow> store \<Rightarrow> nat \<times> store" where
  "new_obj ob h = (length h, h @ [ob])"

text \<open>\<open>info[key] = value\<close> for the object at \<open>a\<close>; \<open>f\<close> sets the entry.\<close>

definition upd_cell :: "nat \<Rightarrow> (cell \<Rightarrow> cell) \<Rightarrow> store \<Rightarrow> store" where
  "upd_cell a f h =
     (if a < length h
      then (case h ! a of OInfo c \<Rightarrow> h[a := OInfo (f c)] | ODict d \<Rightarrow> h)
      else h)"

definition get_cell :: "store \<Rightarrow> nat \<Rightarrow> cell option" where
  "get_cell h a =
     (if a < length h then (case h ! a of OInfo c \<Rightarrow> Some c | ODict d \<Rightarrow> None) else None)"

text \<open>\<open>d[k] = v\<close> and the entries of \<open>d\<close> for the dictionary at \<open>b\<close>.\<close>

definition dict_set :: "nat \<Rightarrow> pystr \<Rightarrow> pystr \<Rightarrow> store \<Rightarrow> store" where
  "dict_set b k v h =
     (if b < length h
      then (case h ! b of ODict d \<Rightarrow> h[b := ODict (AList.update k v d)] | OInfo c \<Rightarrow> h)
      else h)"

definition get_dict :: "store \<Rightarrow> nat \<Rightarrow> (pystr \<times> pystr) list" where
  "get_dict h b =
     (if b < length h then (case h ! b of ODict d \<Rightarrow> d | OInfo c \<Rightarrow> []) else [])"

text \<open>\<open>info["app_name_labels"][k] = v\<close> and \<open>info["icons"][k] = v\<close>.\<close>

definition label_set :: "nat \<Rightarrow> pystr \<Rightarrow> pystr \<Rightarrow> store \<Rightarrow> store" where
  "label_set a k v h =
     (case get_cell h a of None \<Rightarrow> h | Some c \<Rightarrow> dict_set (c_app_name_labels c) k v h)"

definition icon_set :: "nat \<Rightarrow> pystr \<Rightarrow> pystr \<Rightarrow> store \<Rightarrow> store" where
  "icon_set a k v h =
     (case get_cell h a of None \<Rightarrow> h | Some c \<Rightarrow> dict_set (c_icons c) k v h)"

text \<open>The entries of \<open>info["app_name_labels"]\<close> and the string \<open>info["app_name"]\<close>.\<close>

definition labels_of :: "store \<Rightarrow> nat \<Rightarrow> (pystr \<times> pystr) list" where
  "labels_of h a = (case get_cell h a of None \<Rightarrow> [] | Some c \<Rightarrow> get_dict h (c_app_name_labels c))"

definition app_name_of :: "store \<Rightarrow> nat \<Rightarrow> pystr" where
  "app_name_of h a = (case get_cell h a of None \<Rightarrow> [] | Some c \<Rightarrow> c_app_name c)"

text \<open>\<open>if m: ...\<close> for the result \<open>m\<close> of a search.\<close>

definition when_match :: "caps option \<Rightarrow> (caps \<Rightarrow> store \<Rightarrow> store) \<Rightarrow> store \<Rightarrow> store" where
  "when_match m f h = (case m of None \<Rightarrow> h | Some c \<Rightarrow> f c h)"

text \<open>
  The loop \<open>for pref in ("zh-CN", "zh-HK", "zh-TW")\<close>: the first preferred locale whose
  label is present and not empty is assigned to \<open>info["app_name"]\<close> and ends the loop.
\<close>

fun pref_loop_store :: "nat \<Rightarrow> pystr list \<Rightarrow> store \<Rightarrow> store" where
  "pref_loop_store a [] h = h"
| "pref_loop_store a (pref # prefs) h =
     (if dict_get (labels_of h a) pref [] \<noteq> []
      then upd_cell a (\<lambda>c. c\<lparr>c_app_name := dict_get (labels_of h a) pref []\<rparr>) h
      else pref_loop_store a prefs h)"

text \<open>
  The dictionary display that \<open>info\<close> starts from, with the references \<open>l\<close> and \<open>i\<close> of the
  two nested dictionaries.
\<close>

definition initial_cell :: "nat \<Rightarrow> nat \<Rightarrow> pystr \<Rightarrow> cell" where
  "initial_cell l i text =
     \<lparr>c_package_name = [], c_version_name = [], c_version_code = [],
      c_platform_build_version_name = [], c_platform_build_version_code = [],
      c_compile_sdk_version = [], c_compile_sdk_codename = [], c_min_sdk = [],
      c_target_sdk = [], c_app_name = [], c_app_name_labels = l,
      c_launchable_activity = [], c_permissions = [], c_features = [],
      c_implied_features = [], c_supports_screens = [], c_supports_any_density = [],
      c_densities = [], c_locales = [], c_icons = i, c_raw = strip text,
      c_architectures = []\<rparr>"

text \<open>
  The parser: it makes the two nested dictionaries and \<open>info\<close>, carries out the
  assignments of the source in their order, and returns the reference of \<open>info\<close> with
  the store that it leaves.
\<close>

definition parse_store :: "(nat \<Rightarrow> bool) \<Rightarrow> pystr \<Rightarrow> store \<Rightarrow> nat \<times> store" where
  "parse_store W text h0 =
    (let (labels, h) = new_obj (ODict []) h0;
         (icons, h) = new_obj (ODict []) h;
         (info, h) = new_obj (OInfo (initial_cell labels icons text)) h;
         h = when_match (re_search pat_pkg text)
               (\<lambda>m. upd_cell info (\<lambda>c. c\<lparr>c_package_name := group m 1,
                                          c_version_code := group m 2,
                                          c_version_name := group m 3\<rparr>)) h;
         h = when_match (re_search pat_plat text)
               (\<lambda>m. upd_cell info (\<lambda>c. c\<lparr>c_platform_build_version_name := group m 1\<rparr>)) h;
         h = when_match (re_search pat_platc text)
               (\<lambda>m. upd_cell info (\<lambda>c. c\<lparr>c_platform_build_version_code := group m 1\<rparr>)) h;
         h = when_match (re_search pat_compile text)
               (\<lambda>m. upd_cell info (\<lambda>c. c\<lparr>c_compile_sdk_version := group m 1\<rparr>)) h;
         h = when_match (re_search pat_compile_code text)
               (\<lambda>m. upd_cell info (\<lambda>c. c\<lparr>c_compile_sdk_codename := group m 1\<rparr>)) h;
         h = when_match (re_search pat_min text)
               (\<lambda>m. upd_cell info (\<lambda>c. c\<lparr>c_min_sdk := group m 1\<rparr>)) h;
         h = when_match (re_search pat_target text)
               (\<lambda>m. upd_cell info (\<lambda>c. c\<lparr>c_target_sdk := group m 1\<rparr>)) h;
         h = fold (\<lambda>kv. label_set info (fst kv) (snd kv)) (findall2 (pat_label_loc W) text) h;
         generic_label = (case re_search pat_label_generic text of
                            None \<Rightarrow> []
                          | Some m \<Rightarrow> group m 1);
         app_node_label = (case re_search pat_label_app text of
                             None \<Rightarrow> []
                           | Some m \<Rightarrow> group m 1);
         h = pref_loop_store info [ords ''zh-CN'', ords ''zh-HK'', ords ''zh-TW''] h;
         h = (if app_name_of h info = []
              then upd_cell info
                     (\<lambda>c. c\<lparr>c_app_name :=
                              py_or generic_label
                                (py_or (dict_get (labels_of h info) (ords ''zh'') [])
                                       app_node_label)\<rparr>) h
              else h);
         h = when_match (re_search pat_launch text)
               (\<lambda>m. upd_cell info (\<lambda>c. c\<lparr>c_launchable_activity := group m 1\<rparr>)) h;
         h = upd_cell info (\<lambda>c. c\<lparr>c_permissions := findall1 pat_permission text\<rparr>) h;
         h = upd_cell info (\<lambda>c. c\<lparr>c_features := findall1 pat_feature text\<rparr>) h;
         h = upd_cell info (\<lambda>c. c\<lparr>c_implied_features := findall1 pat_implied text\<rparr>) h;
         h = when_match (re_search pat_screens text)
               (\<lambda>m. upd_cell info
                      (\<lambda>c. c\<lparr>c_supports_screens := findall1 pat_quoted (group m 1)\<rparr>)) h;
         h = when_match (re_search pat_anyden text)
               (\<lambda>m. upd_cell info (\<lambda>c. c\<lparr>c_supports_any_density := group m 1\<rparr>)) h;
         h = when_match (re_search pat_dens text)
               (\<lambda>m. upd_cell info (\<lambda>c. c\<lparr>c_densities := findall1 pat_quoted (group m 1)\<rparr>)) h;
         h = when_match (re_search pat_loc text)
               (\<lambda>m. upd_cell info (\<lambda>c. c\<lparr>c_locales := findall1 pat_quoted (group m 1)\<rparr>)) h;
         h = fold (\<lambda>kv. icon_set info (fst kv) (snd kv)) (findall2 pat_icon text) h;
         h = upd_cell info (\<lambda>c. c\<lparr>c_architectures := arch_loop [] (splitlines text)\<rparr>) h
     in (info, h))"

text \<open>
  What a caller reads through the reference that the parser returns: the entries of
  \<open>info\<close>, the two nested dictionaries followed to their entries.
\<close>

definition read_info :: "store \<Rightarrow> nat \<Rightarrow> info option" where
  "read_info h a =
     (case get_cell h a of
        None \<Rightarrow> None
      | Some c \<Rightarrow> Some
          \<lparr>package_name = c_package_name c, version_name = c_version_name c,
           version_code = c_version_code c,
           platform_build_version_name = c_platform_build_version_name c,
           platform_build_version_code = c_platform_build_version_code c,
           compile_sdk_version = c_compile_sdk_version c,
           compile_sdk_codename = c_compile_sdk_codename c, min_sdk = c_min_sdk c,
           target_sdk = c_target_sdk c, app_name = c_app_name c,
           app_name_labels = get_dict h (c_app_name_labels c),
           launchable_activity = c_launchable_activity c, permissions = c_permissions c,
           features = c_features c, implied_features = c_implied_features c,
           supports_screens = c_supports_screens c,
           supports_any_density = c_supports_any_density c, densities = c_densities c,
           locales = c_locales c, icons = get_dict h (c_icons c), raw = c_raw c,
           architectures = c_architectures c\<rparr>)"

text \<open>The object \<open>info\<close> that holds a record, its nested dictionaries at \<open>l\<close> and \<open>i\<close>.\<close>

definition cell_of :: "nat \<Rightarrow> nat \<Rightarrow> info \<Rightarrow> cell" where
  "cell_of l i r =
     \<lparr>c_package_name = package_name r, c_version_name = version_name r,
      c_version_code = version_code r,
      c_platform_build_version_name = platform_build_version_name r,
      c_platform_build_version_code = platform_build_version_code r,
      c_compile_sdk_version = compile_sdk_version r,
      c_compile_sdk_codename = compile_sdk_codename r, c_min_sdk = min_sdk r,
      c_target_sdk = target_sdk r, c_app_name = app_name r, c_app_name_labels = l,
      c_launchable_activity = launchable_activity r, c_permissions = permissions r,
      c_features = features r, c_implied_features = implied_features r,
      c_supports_screens = supports_screens r,
      c_supports_any_density = supports_any_density r, c_densities = densities r,
      c_locales = locales r, c_icons = i, c_raw = raw r,
      c_architectures = architectures r\<rparr>"

section \<open>The fields of the parsed record\<close>

lemma upd_pkg:
  "(case x of None \<Rightarrow> i
    | Some m \<Rightarrow> i\<lparr>package_name := g1 m, version_code := g2 m, version_name := g3 m\<rparr>) =
   i\<lparr>package_name := (case x of None \<Rightarrow> package_name i | Some m \<Rightarrow> g1 m),
     version_code := (case x of None \<Rightarrow> version_code i | Some m \<Rightarrow> g2 m),
     version_name := (case x of None \<Rightarrow> version_name i | Some m \<Rightarrow> g3 m)\<rparr>"
  by (cases x) simp_all

lemma upd_fields:
  "(case x of None \<Rightarrow> i | Some m \<Rightarrow> i\<lparr>platform_build_version_name := g m\<rparr>) =
     i\<lparr>platform_build_version_name :=
         (case x of None \<Rightarrow> platform_build_version_name i | Some m \<Rightarrow> g m)\<rparr>"
  "(case x of None \<Rightarrow> i | Some m \<Rightarrow> i\<lparr>platform_build_version_code := g m\<rparr>) =
     i\<lparr>platform_build_version_code :=
         (case x of None \<Rightarrow> platform_build_version_code i | Some m \<Rightarrow> g m)\<rparr>"
  "(case x of None \<Rightarrow> i | Some m \<Rightarrow> i\<lparr>compile_sdk_version := g m\<rparr>) =
     i\<lparr>compile_sdk_version := (case x of None \<Rightarrow> compile_sdk_version i | Some m \<Rightarrow> g m)\<rparr>"
  "(case x of None \<Rightarrow> i | Some m \<Rightarrow> i\<lparr>compile_sdk_codename := g m\<rparr>) =
     i\<lparr>compile_sdk_codename := (case x of None \<Rightarrow> compile_sdk_codename i | Some m \<Rightarrow> g m)\<rparr>"
  "(case x of None \<Rightarrow> i | Some m \<Rightarrow> i\<lparr>min_sdk := g m\<rparr>) =
     i\<lparr>min_sdk := (case x of None \<Rightarrow> min_sdk i | Some m \<Rightarrow> g m)\<rparr>"
  "(case x of None \<Rightarrow> i | Some m \<Rightarrow> i\<lparr>target_sdk := g m\<rparr>) =
     i\<lparr>target_sdk := (case x of None \<Rightarrow> target_sdk i | Some m \<Rightarrow> g m)\<rparr>"
  "(case x of None \<Rightarrow> i | Some m \<Rightarrow> i\<lparr>launchable_activity := g m\<rparr>) =
     i\<lparr>launchable_activity := (case x of None \<Rightarrow> launchable_activity i | Some m \<Rightarrow> g m)\<rparr>"
  "(case x of None \<Rightarrow> i | Some m \<Rightarrow> i\<lparr>supports_screens := h m\<rparr>) =
     i\<lparr>supports_screens := (case x of None \<Rightarrow> supports_screens i | Some m \<Rightarrow> h m)\<rparr>"
  "(case x of None \<Rightarrow> i | Some m \<Rightarrow> i\<lparr>supports_any_density := g m\<rparr>) =
     i\<lparr>supports_any_density := (case x of None \<Rightarrow> supports_any_density i | Some m \<Rightarrow> g m)\<rparr>"
  "(case x of None \<Rightarrow> i | Some m \<Rightarrow> i\<lparr>densities := h m\<rparr>) =
     i\<lparr>densities := (case x of None \<Rightarrow> densities i | Some m \<Rightarrow> h m)\<rparr>"
  "(case x of None \<Rightarrow> i | Some m \<Rightarrow> i\<lparr>locales := h m\<rparr>) =
     i\<lparr>locales := (case x of None \<Rightarrow> locales i | Some m \<Rightarrow> h m)\<rparr>"
  "(if b then i\<lparr>app_name := a\<rparr> else i) = i\<lparr>app_name := (if b then a else app_name i)\<rparr>"
  by (cases x; simp)+

lemma initial_simps:
  "package_name (initial_info t) = []" "version_name (initial_info t) = []"
  "version_code (initial_info t) = []" "platform_build_version_name (initial_info t) = []"
  "platform_build_version_code (initial_info t) = []" "compile_sdk_version (initial_info t) = []"
  "compile_sdk_codename (initial_info t) = []" "min_sdk (initial_info t) = []"
  "target_sdk (initial_info t) = []" "app_name (initial_info t) = []"
  "app_name_labels (initial_info t) = []" "launchable_activity (initial_info t) = []"
  "permissions (initial_info t) = []" "features (initial_info t) = []"
  "implied_features (initial_info t) = []" "supports_screens (initial_info t) = []"
  "supports_any_density (initial_info t) = []" "densities (initial_info t) = []"
  "locales (initial_info t) = []" "icons (initial_info t) = []"
  "raw (initial_info t) = strip t" "architectures (initial_info t) = []"
  by (simp_all add: initial_info_def)

lemmas parse_unfold = parse_aapt2_output_def Let_def upd_pkg upd_fields initial_simps

lemma package_name_parse:
  "package_name (parse_aapt2_output W t) =
     (case re_search pat_pkg t of None \<Rightarrow> [] | Some m \<Rightarrow> group m 1)"
  by (simp add: parse_unfold cong: option.case_cong del: pref_loop.simps)

lemma version_code_parse:
  "version_code (parse_aapt2_output W t) =
     (case re_search pat_pkg t of None \<Rightarrow> [] | Some m \<Rightarrow> group m 2)"
  by (simp add: parse_unfold cong: option.case_cong del: pref_loop.simps)

lemma version_name_parse:
  "version_name (parse_aapt2_output W t) =
     (case re_search pat_pkg t of None \<Rightarrow> [] | Some m \<Rightarrow> group m 3)"
  by (simp add: parse_unfold cong: option.case_cong del: pref_loop.simps)

lemma platform_build_version_name_parse:
  "platform_build_version_name (parse_aapt2_output W t) =
     (case re_search pat_plat t of None \<Rightarrow> [] | Some m \<Rightarrow> group m 1)"
  by (simp add: parse_unfold cong: option.case_cong del: pref_loop.simps)

lemma platform_build_version_code_parse:
  "platform_build_version_code (parse_aapt2_output W t) =
     (case re_search pat_platc t of None \<Rightarrow> [] | Some m \<Rightarrow> group m 1)"
  by (simp add: parse_unfold cong: option.case_cong del: pref_loop.simps)

lemma compile_sdk_version_parse:
  "compile_sdk_version (parse_aapt2_output W t) =
     (case re_search pat_compile t of None \<Rightarrow> [] | Some m \<Rightarrow> group m 1)"
  by (simp add: parse_unfold cong: option.case_cong del: pref_loop.simps)

lemma compile_sdk_codename_parse:
  "compile_sdk_codename (parse_aapt2_output W t) =
     (case re_search pat_compile_code t of None \<Rightarrow> [] | Some m \<Rightarrow> group m 1)"
  by (simp add: parse_unfold cong: option.case_cong del: pref_loop.simps)

lemma min_sdk_parse:
  "min_sdk (parse_aapt2_output W t) =
     (case re_search pat_min t of None \<Rightarrow> [] | Some m \<Rightarrow> group m 1)"
  by (simp add: parse_unfold cong: option.case_cong del: pref_loop.simps)

lemma target_sdk_parse:
  "target_sdk (parse_aapt2_output W t) =
     (case re_search pat_target t of None \<Rightarrow> [] | Some m \<Rightarrow> group m 1)"
  by (simp add: parse_unfold cong: option.case_cong del: pref_loop.simps)

lemma app_name_labels_parse:
  "app_name_labels (parse_aapt2_output W t) = store_all (findall2 (pat_label_loc W) t)"
  by (simp add: parse_unfold cong: option.case_cong del: pref_loop.simps)

lemma app_name_parse:
  "app_name (parse_aapt2_output W t) =
     (if pref_loop (store_all (findall2 (pat_label_loc W) t))
           [ords ''zh-CN'', ords ''zh-HK'', ords ''zh-TW''] = []
      then py_or (generic_label_of t)
             (py_or (dict_get (store_all (findall2 (pat_label_loc W) t)) (ords ''zh'') [])
                (app_node_label_of t))
      else pref_loop (store_all (findall2 (pat_label_loc W) t))
             [ords ''zh-CN'', ords ''zh-HK'', ords ''zh-TW''])"
  by (simp add: parse_unfold generic_label_of_def app_node_label_of_def
      cong: option.case_cong del: pref_loop.simps)

lemma launchable_activity_parse:
  "launchable_activity (parse_aapt2_output W t) =
     (case re_search pat_launch t of None \<Rightarrow> [] | Some m \<Rightarrow> group m 1)"
  by (simp add: parse_unfold cong: option.case_cong del: pref_loop.simps)

lemma permissions_parse:
  "permissions (parse_aapt2_output W t) = findall1 pat_permission t"
  by (simp add: parse_unfold cong: option.case_cong del: pref_loop.simps)

lemma features_parse:
  "features (parse_aapt2_output W t) = findall1 pat_feature t"
  by (simp add: parse_unfold cong: option.case_cong del: pref_loop.simps)

lemma implied_features_parse:
  "implied_features (parse_aapt2_output W t) = findall1 pat_implied t"
  by (simp add: parse_unfold cong: option.case_cong del: pref_loop.simps)

lemma supports_screens_parse:
  "supports_screens (parse_aapt2_output W t) =
     (case re_search pat_screens t of None \<Rightarrow> []
      | Some m \<Rightarrow> findall1 pat_quoted (group m 1))"
  by (simp add: parse_unfold cong: option.case_cong del: pref_loop.simps)

lemma supports_any_density_parse:
  "supports_any_density (parse_aapt2_output W t) =
     (case re_search pat_anyden t of None \<Rightarrow> [] | Some m \<Rightarrow> group m 1)"
  by (simp add: parse_unfold cong: option.case_cong del: pref_loop.simps)

lemma densities_parse:
  "densities (parse_aapt2_output W t) =
     (case re_search pat_dens t of None \<Rightarrow> [] | Some m \<Rightarrow> findall1 pat_quoted (group m 1))"
  by (simp add: parse_unfold cong: option.case_cong del: pref_loop.simps)

lemma locales_parse:
  "locales (parse_aapt2_output W t) =
     (case re_search pat_loc t of None \<Rightarrow> [] | Some m \<Rightarrow> findall1 pat_quoted (group m 1))"
  by (simp add: parse_unfold cong: option.case_cong del: pref_loop.simps)

lemma icons_parse:
  "icons (parse_aapt2_output W t) = store_all (findall2 pat_icon t)"
  by (simp add: parse_unfold cong: option.case_cong del: pref_loop.simps)

lemma raw_parse: "raw (parse_aapt2_output W t) = strip t"
  by (simp add: parse_unfold cong: option.case_cong del: pref_loop.simps)

lemma architectures_parse:
  "architectures (parse_aapt2_output W t) = arch_loop [] (splitlines t)"
  by (simp add: parse_unfold cong: option.case_cong del: pref_loop.simps)

section \<open>What the matcher returns\<close>

lemma ms_suffix: "(s', c') \<in> set (ms r s c) \<Longrightarrow> \<exists>u. s = u @ s'"
proof (induction r s c arbitrary: s' c' rule: ms.induct)
  case (1 w s c)
  then have "s' = drop (length w) s" by (auto simp: ms.simps(1) split: if_splits)
  then have "s = take (length w) s @ s'" by simp
  then show ?case by blast
next
  case (2 P s c)
  then show ?case by (auto simp: ms.simps(2) split: list.splits if_splits)
next
  case (3 a b s c)
  from 3(3) obtain p where p: "p \<in> set (ms a s c)" and q: "(s', c') \<in> set (ms b (fst p) (snd p))"
    by (auto simp: ms.simps(3))
  from 3(1)[of "fst p" "snd p"] p obtain u where "s = u @ fst p" by auto
  moreover from 3(2)[OF p q] obtain v where "fst p = v @ s'" by auto
  ultimately show ?case by auto
next
  case (4 r s c)
  then show ?case by (auto simp: ms.simps(4))
next
  case (5 r s c)
  from 5(3) consider "(s', c') = (s, c)"
    | p where "p \<in> set (ms r s c)" "length (fst p) < length s"
        "(s', c') \<in> set (ms (Star r) (fst p) (snd p))"
    by (subst (asm) ms.simps(5)) (auto split: if_splits)
  then show ?case
  proof cases
    case 1
    then show ?thesis by simp
  next
    case 2
    from 5(1)[of "fst p" "snd p"] 2(1) obtain u where "s = u @ fst p" by auto
    moreover from 5(2)[OF 2(1) 2(2) 2(3)] obtain v where "fst p = v @ s'" by auto
    ultimately show ?thesis by auto
  qed
next
  case (6 r s c)
  from 6(3) consider "(s', c') = (s, c)"
    | p where "p \<in> set (ms r s c)" "length (fst p) < length s"
        "(s', c') \<in> set (ms (LazyStar r) (fst p) (snd p))"
    by (subst (asm) ms.simps(6)) (auto split: if_splits)
  then show ?case
  proof cases
    case 1
    then show ?thesis by simp
  next
    case 2
    from 6(1)[of "fst p" "snd p"] 2(1) obtain u where "s = u @ fst p" by auto
    moreover from 6(2)[OF 2(1) 2(2) 2(3)] obtain v where "fst p = v @ s'" by auto
    ultimately show ?thesis by auto
  qed
next
  case (7 n r s c)
  then show ?case by (auto simp: ms.simps(7))
qed

lemma ms_length: "(s', c') \<in> set (ms r s c) \<Longrightarrow> length s' \<le> length s"
  using ms_suffix[of s' c' r s c] by auto

lemma ms_set: "(s', c') \<in> set (ms r s c) \<Longrightarrow> set s' \<subseteq> set s"
  using ms_suffix[of s' c' r s c] by auto

lemma ms_needs: "needs q r \<Longrightarrow> q \<notin> set s \<Longrightarrow> ms r s c = []"
proof (induction r s c rule: ms.induct)
  case (1 w s c)
  have "take (length w) s \<noteq> w"
  proof
    assume "take (length w) s = w"
    with 1 have "q \<in> set (take (length w) s)" by simp
    then have "q \<in> set s" by (rule in_set_takeD)
    with 1 show False by simp
  qed
  then show ?case by (simp add: ms.simps(1))
next
  case (3 a b s c)
  show ?case
  proof (cases "needs q a")
    case True
    with 3 show ?thesis by (simp add: ms.simps(3))
  next
    case False
    with 3(3) have nb: "needs q b" by simp
    have "ms b (fst p) (snd p) = []" if "p \<in> set (ms a s c)" for p
    proof -
      from that have "set (fst p) \<subseteq> set s" using ms_set[of "fst p" "snd p"] by simp
      with 3(4) have "q \<notin> set (fst p)" by auto
      with 3(2)[OF that nb] show ?thesis .
    qed
    then show ?thesis by (simp add: ms.simps(3))
  qed
next
  case (7 n r s c)
  then show ?case by (simp add: ms.simps(7))
qed simp_all

section \<open>The display of an SDK level\<close>

lemma numeric_keys_no_placeholder:
  assumes "numeric_keys sdk_map"
  shows "sdk_map [] = None \<and> sdk_map (ords ''?'') = None"
proof -
  have "\<not> list_all is_digit (ords ''?'')" by (simp add: ords_def is_digit_def)
  with assms show ?thesis by (auto simp: numeric_keys_def dom_def)
qed

text \<open>
  C9. The table is keyed by API levels, so every key is a string of digits. Then the
  display of a level is \<open>level(label)\<close> when the level is a key of the table, the bare
  level when the level is not empty and is not a key, and the question mark when the
  level is absent or empty.
\<close>

theorem fmt_sdk_cases:
  assumes "numeric_keys sdk_map"
  shows "(sdk_map l = Some v \<longrightarrow> fmt_sdk sdk_map (Some l) = l @ ords ''('' @ v @ ords '')'') \<and>
   (l \<noteq> [] \<and> sdk_map l = None \<longrightarrow> fmt_sdk sdk_map (Some l) = l) \<and>
   fmt_sdk sdk_map None = ords ''?'' \<and>
   fmt_sdk sdk_map (Some []) = ords ''?''"
proof (intro conjI impI)
  from numeric_keys_no_placeholder [OF assms]
  have n: "sdk_map [] = None" "sdk_map (ords ''?'') = None" by simp_all
  show "fmt_sdk sdk_map (Some l) = l @ ords ''('' @ v @ ords '')''" if "sdk_map l = Some v"
  proof -
    from that n have "l \<noteq> []" "l \<noteq> ords ''?''" by auto
    with that show ?thesis by (simp add: fmt_sdk_def)
  qed
  show "fmt_sdk sdk_map (Some l) = l" if "l \<noteq> [] \<and> sdk_map l = None"
    using that by (simp add: fmt_sdk_def)
  show "fmt_sdk sdk_map None = ords ''?''" by (simp add: fmt_sdk_def)
  show "fmt_sdk sdk_map (Some []) = ords ''?''" by (simp add: fmt_sdk_def)
qed

theorem fmt_sdk_cases_witness:
  "fmt_sdk [ords ''34'' \<mapsto> ords ''14''] (Some (ords ''34'')) = ords ''34(14)'' \<and>
   fmt_sdk [ords ''34'' \<mapsto> ords ''14''] (Some (ords ''99'')) = ords ''99'' \<and>
   fmt_sdk [ords ''34'' \<mapsto> ords ''14''] (Some (ords ''?'')) = ords ''?''"
  using fmt_sdk_cases [of "[ords ''34'' \<mapsto> ords ''14'']" "ords ''34''" "ords ''14''"]
    fmt_sdk_cases [of "[ords ''34'' \<mapsto> ords ''14'']" "ords ''99''" "ords ''14''"]
    fmt_sdk_cases [of "[ords ''34'' \<mapsto> ords ''14'']" "ords ''?''" "ords ''14''"]
  by (simp add: numeric_keys_def ords_def is_digit_def)

section \<open>Evaluation on a given text\<close>

text \<open>
  The equations that evaluate the matcher and the string functions on a literal text.
  The simplifier leaves the branches of a conditional alone until its condition is
  decided, so the equations of the repetitions do not loop.
\<close>

lemmas eval_simps = ords_def Plus_def quote_def sp_def nq_def is_space_def not_quote_def
  is_digit_def is_word_def is_linebreak_def match_at_def group_def findall1_def findall2_def
  finditer_def ms.simps strip_def startswith_def splitlines_def store_all_def py_or_def
  dict_get_def

section \<open>Architectures\<close>

lemma arch_loop_acc:
  "arch_loop archs ls =
     archs @ concat (map (\<lambda>l. findall1 pat_quoted (strip l)) (filter is_arch_line ls))"
  by (induction ls arbitrary: archs) (simp_all add: is_arch_line_def Let_def)

text \<open>
  C3. The architectures are the quoted tokens of the lines that begin, once trimmed,
  with \<open>native-code:\<close> or \<open>alt-native-code:\<close>, line after line, nothing removed: the loop
  of the parser computes what the specification describes. On the two lines of the
  specification the result is the three tokens in their order, and a token that occurs
  on two lines occurs twice.
\<close>

theorem architectures_in_line_order:
  "architectures (parse_aapt2_output W text) = arch_tokens text \<and>
   architectures (parse_aapt2_output W
       (ords ''native-code: 'arm64-v8a' 'armeabi-v7a'\<newline>alt-native-code: 'x86'\<newline>''))
     = [ords ''arm64-v8a'', ords ''armeabi-v7a'', ords ''x86''] \<and>
   architectures (parse_aapt2_output W
       (ords ''  native-code: 'x86'\<newline>other: 'y'\<newline>alt-native-code: 'x86' 'x86'\<newline>''))
     = [ords ''x86'', ords ''x86'', ords ''x86'']"
proof (intro conjI)
  show "architectures (parse_aapt2_output W text) = arch_tokens text"
    by (simp add: architectures_parse arch_loop_acc arch_tokens_def)
  show "architectures (parse_aapt2_output W
       (ords ''native-code: 'arm64-v8a' 'armeabi-v7a'\<newline>alt-native-code: 'x86'\<newline>''))
     = [ords ''arm64-v8a'', ords ''armeabi-v7a'', ords ''x86'']"
    by (simp add: architectures_parse pat_quoted_def eval_simps)
  show "architectures (parse_aapt2_output W
       (ords ''  native-code: 'x86'\<newline>other: 'y'\<newline>alt-native-code: 'x86' 'x86'\<newline>''))
     = [ords ''x86'', ords ''x86'', ords ''x86'']"
    by (simp add: architectures_parse pat_quoted_def eval_simps)
qed

section \<open>The resolved application name\<close>




section \<open>Searches that find nothing\<close>

lemma match_at_needs: "needs q r \<Longrightarrow> q \<notin> set s \<Longrightarrow> match_at r s = None"
  by (simp add: match_at_def ms_needs)

lemma re_search_needs: "needs q r \<Longrightarrow> q \<notin> set s \<Longrightarrow> re_search r s = None"
  by (induction s) (simp_all add: match_at_needs)

lemma re_search_None_drop: "re_search r s = None \<Longrightarrow> match_at r (drop k s) = None"
proof (induction s arbitrary: k)
  case Nil
  then show ?case by (simp split: option.splits)
next
  case (Cons x xs)
  then show ?case by (cases k) (simp_all split: option.splits)
qed

lemma finditer_from_None: "re_search r s = None \<Longrightarrow> finditer_from r n s = []"
proof (induction s arbitrary: n)
  case Nil
  then show ?case by (simp split: option.splits)
next
  case (Cons x xs)
  then show ?case by (simp split: option.splits)
qed

lemma findall1_None: "re_search r s = None \<Longrightarrow> findall1 r s = []"
  by (simp add: findall1_def finditer_def finditer_from_None)

lemma findall2_None: "re_search r s = None \<Longrightarrow> findall2 r s = []"
  by (simp add: findall2_def finditer_def finditer_from_None)

lemma set_strip: "set (strip l) \<subseteq> set l"
proof -
  have "set (strip l) \<subseteq> set (rev (dropWhile is_space l))"
    unfolding strip_def using set_dropWhileD [of _ is_space "rev (dropWhile is_space l)"]
    by auto
  also have "\<dots> \<subseteq> set l" using set_dropWhileD [of _ is_space l] by auto
  finally show ?thesis .
qed

lemma splitlines_from_set:
  "l \<in> set (splitlines_from cur s) \<Longrightarrow> set l \<subseteq> set cur \<union> set s"
proof (induction cur s arbitrary: l rule: splitlines_from.induct)
  case (1 cur)
  then show ?case by (auto split: if_splits)
next
  case (2 cur x xs)
  show ?case
  proof (cases "is_linebreak x")
    case False
    with "2.prems" have "l \<in> set (splitlines_from (cur @ [x]) xs)" by simp
    from "2.IH"(4) [OF False this] show ?thesis by auto
  next
    case True
    show ?thesis
    proof (cases xs)
      case Nil
      with True "2.prems" show ?thesis by auto
    next
      case (Cons y ys)
      show ?thesis
      proof (cases "x = 13 \<and> y = 10")
        case c: True
        with True Cons "2.prems" have "l = cur \<or> l \<in> set (splitlines_from [] ys)" by auto
        then show ?thesis
        proof
          assume "l = cur" then show ?thesis by auto
        next
          assume "l \<in> set (splitlines_from [] ys)"
          from "2.IH"(2) [OF True Cons c this] Cons show ?thesis by auto
        qed
      next
        case c: False
        with True Cons "2.prems" have "l = cur \<or> l \<in> set (splitlines_from [] xs)" by auto
        then show ?thesis
        proof
          assume "l = cur" then show ?thesis by auto
        next
          assume "l \<in> set (splitlines_from [] xs)"
          from "2.IH"(3) [OF True Cons c this] show ?thesis by auto
        qed
      qed
    qed
  qed
qed

lemma splitlines_set: "l \<in> set (splitlines s) \<Longrightarrow> set l \<subseteq> set s"
  using splitlines_from_set [of l "[]" s] by (simp add: splitlines_def)

section \<open>A text without any recognized pattern\<close>

lemma recognized_need_quote: "r \<in> set (recognized W) \<Longrightarrow> needs 39 r"
  by (auto simp: recognized_def pat_pkg_def pat_plat_def pat_platc_def pat_compile_def
      pat_compile_code_def pat_min_def pat_target_def pat_label_loc_def pat_label_generic_def
      pat_label_app_def pat_launch_def pat_permission_def pat_feature_def pat_implied_def
      pat_screens_def pat_anyden_def pat_dens_def pat_loc_def pat_icon_def token_run_def
      quote_def Plus_def)

lemma quote_free_no_pattern: "39 \<notin> set text \<Longrightarrow> no_pattern_occurs W text"
proof -
  assume q: "39 \<notin> set text"
  have a: "re_search r text = None" if "r \<in> set (recognized W)" for r
    using recognized_need_quote [OF that] q by (rule re_search_needs)
  have b: "re_search pat_quoted (strip l) = None" if "l \<in> set (splitlines text)" for l
  proof -
    from that have "set (strip l) \<subseteq> set text"
      using set_strip [of l] splitlines_set [of l "text"] by blast
    with q have "39 \<notin> set (strip l)" by blast
    moreover have "needs 39 pat_quoted" by (simp add: pat_quoted_def quote_def)
    ultimately show ?thesis by (rule re_search_needs [rotated])
  qed
  from a b show ?thesis by (simp add: no_pattern_occurs_def)
qed

lemma arch_loop_none:
  "\<forall>l \<in> set ls. is_arch_line l \<longrightarrow> re_search pat_quoted (strip l) = None \<Longrightarrow>
   arch_loop archs ls = archs"
  by (induction ls arbitrary: archs) (simp_all add: is_arch_line_def Let_def findall1_None)

lemma no_pattern_fields:
  assumes "no_pattern_occurs W text"
  shows "package_name (parse_aapt2_output W text) = []"
    and "version_name (parse_aapt2_output W text) = []"
    and "version_code (parse_aapt2_output W text) = []"
    and "platform_build_version_name (parse_aapt2_output W text) = []"
    and "platform_build_version_code (parse_aapt2_output W text) = []"
    and "compile_sdk_version (parse_aapt2_output W text) = []"
    and "compile_sdk_codename (parse_aapt2_output W text) = []"
    and "min_sdk (parse_aapt2_output W text) = []"
    and "target_sdk (parse_aapt2_output W text) = []"
    and "app_name (parse_aapt2_output W text) = []"
    and "app_name_labels (parse_aapt2_output W text) = []"
    and "launchable_activity (parse_aapt2_output W text) = []"
    and "permissions (parse_aapt2_output W text) = []"
    and "features (parse_aapt2_output W text) = []"
    and "implied_features (parse_aapt2_output W text) = []"
    and "supports_screens (parse_aapt2_output W text) = []"
    and "supports_any_density (parse_aapt2_output W text) = []"
    and "densities (parse_aapt2_output W text) = []"
    and "locales (parse_aapt2_output W text) = []"
    and "icons (parse_aapt2_output W text) = []"
    and "architectures (parse_aapt2_output W text) = []"
proof -
  from assms have s: "re_search pat_pkg text = None" "re_search pat_plat text = None"
    "re_search pat_platc text = None" "re_search pat_compile text = None"
    "re_search pat_compile_code text = None" "re_search pat_min text = None"
    "re_search pat_target text = None" "re_search (pat_label_loc W) text = None"
    "re_search pat_label_generic text = None" "re_search pat_label_app text = None"
    "re_search pat_launch text = None" "re_search pat_permission text = None"
    "re_search pat_feature text = None" "re_search pat_implied text = None"
    "re_search pat_screens text = None" "re_search pat_anyden text = None"
    "re_search pat_dens text = None" "re_search pat_loc text = None"
    "re_search pat_icon text = None"
    by (simp_all add: no_pattern_occurs_def recognized_def)
  from assms have l:
    "\<forall>l \<in> set (splitlines text). is_arch_line l \<longrightarrow> re_search pat_quoted (strip l) = None"
    by (simp add: no_pattern_occurs_def)
  show "package_name (parse_aapt2_output W text) = []" by (simp add: package_name_parse s)
  show "version_name (parse_aapt2_output W text) = []" by (simp add: version_name_parse s)
  show "version_code (parse_aapt2_output W text) = []" by (simp add: version_code_parse s)
  show "platform_build_version_name (parse_aapt2_output W text) = []"
    by (simp add: platform_build_version_name_parse s)
  show "platform_build_version_code (parse_aapt2_output W text) = []"
    by (simp add: platform_build_version_code_parse s)
  show "compile_sdk_version (parse_aapt2_output W text) = []"
    by (simp add: compile_sdk_version_parse s)
  show "compile_sdk_codename (parse_aapt2_output W text) = []"
    by (simp add: compile_sdk_codename_parse s)
  show "min_sdk (parse_aapt2_output W text) = []" by (simp add: min_sdk_parse s)
  show "target_sdk (parse_aapt2_output W text) = []" by (simp add: target_sdk_parse s)
  show "app_name (parse_aapt2_output W text) = []"
    by (simp add: app_name_parse findall2_None s store_all_def generic_label_of_def
        app_node_label_of_def py_or_def dict_get_def)
  show "app_name_labels (parse_aapt2_output W text) = []"
    by (simp add: app_name_labels_parse findall2_None s store_all_def)
  show "launchable_activity (parse_aapt2_output W text) = []"
    by (simp add: launchable_activity_parse s)
  show "permissions (parse_aapt2_output W text) = []"
    by (simp add: permissions_parse findall1_None s)
  show "features (parse_aapt2_output W text) = []" by (simp add: features_parse findall1_None s)
  show "implied_features (parse_aapt2_output W text) = []"
    by (simp add: implied_features_parse findall1_None s)
  show "supports_screens (parse_aapt2_output W text) = []"
    by (simp add: supports_screens_parse s)
  show "supports_any_density (parse_aapt2_output W text) = []"
    by (simp add: supports_any_density_parse s)
  show "densities (parse_aapt2_output W text) = []" by (simp add: densities_parse s)
  show "locales (parse_aapt2_output W text) = []" by (simp add: locales_parse s)
  show "icons (parse_aapt2_output W text) = []"
    by (simp add: icons_parse findall2_None s store_all_def)
  show "architectures (parse_aapt2_output W text) = []"
    by (simp add: architectures_parse arch_loop_none [OF l])
qed

lemma no_pattern_record:
  assumes "no_pattern_occurs W text"
  shows "parse_aapt2_output W text =
     \<lparr>package_name = [], version_name = [], version_code = [],
      platform_build_version_name = [], platform_build_version_code = [],
      compile_sdk_version = [], compile_sdk_codename = [], min_sdk = [], target_sdk = [],
      app_name = [], app_name_labels = [], launchable_activity = [], permissions = [],
      features = [], implied_features = [], supports_screens = [],
      supports_any_density = [], densities = [], locales = [], icons = [],
      raw = strip text, architectures = []\<rparr>"
  by (rule info.equality) (simp_all add: no_pattern_fields [OF assms] raw_parse)


section \<open>Totality and zero values\<close>

text \<open>
  C1. The parser is a total function: the matcher terminates on every pattern and
  every text, and no step of the parser can fail, so one record is returned for
  every text. Its field raw is the text without leading and trailing whitespace.
  A text in which none of the recognized patterns occurs gives the record with
  every other field at its zero value, and a field whose own pattern does not
  occur in the text is at its zero value, whatever else the text holds.
\<close>

theorem parse_total_zero:
  "raw (parse_aapt2_output W text) = strip text \<and>
   (no_pattern_occurs W text \<longrightarrow> parse_aapt2_output W text =
     \<lparr>package_name = [], version_name = [], version_code = [],
      platform_build_version_name = [], platform_build_version_code = [],
      compile_sdk_version = [], compile_sdk_codename = [], min_sdk = [], target_sdk = [],
      app_name = [], app_name_labels = [], launchable_activity = [], permissions = [],
      features = [], implied_features = [], supports_screens = [],
      supports_any_density = [], densities = [], locales = [], icons = [],
      raw = strip text, architectures = []\<rparr>) \<and>
   (re_search pat_pkg text = None \<longrightarrow>
      package_name (parse_aapt2_output W text) = [] \<and>
      version_code (parse_aapt2_output W text) = [] \<and>
      version_name (parse_aapt2_output W text) = []) \<and>
   (re_search pat_plat text = None \<longrightarrow>
      platform_build_version_name (parse_aapt2_output W text) = []) \<and>
   (re_search pat_platc text = None \<longrightarrow>
      platform_build_version_code (parse_aapt2_output W text) = []) \<and>
   (re_search pat_compile text = None \<longrightarrow>
      compile_sdk_version (parse_aapt2_output W text) = []) \<and>
   (re_search pat_compile_code text = None \<longrightarrow>
      compile_sdk_codename (parse_aapt2_output W text) = []) \<and>
   (re_search pat_min text = None \<longrightarrow> min_sdk (parse_aapt2_output W text) = []) \<and>
   (re_search pat_target text = None \<longrightarrow> target_sdk (parse_aapt2_output W text) = []) \<and>
   (re_search (pat_label_loc W) text = None \<longrightarrow>
      app_name_labels (parse_aapt2_output W text) = []) \<and>
   (re_search (pat_label_loc W) text = None \<and> re_search pat_label_generic text = None \<and>
    re_search pat_label_app text = None \<longrightarrow> app_name (parse_aapt2_output W text) = []) \<and>
   (re_search pat_launch text = None \<longrightarrow>
      launchable_activity (parse_aapt2_output W text) = []) \<and>
   (re_search pat_permission text = None \<longrightarrow> permissions (parse_aapt2_output W text) = []) \<and>
   (re_search pat_feature text = None \<longrightarrow> features (parse_aapt2_output W text) = []) \<and>
   (re_search pat_implied text = None \<longrightarrow>
      implied_features (parse_aapt2_output W text) = []) \<and>
   (re_search pat_screens text = None \<longrightarrow>
      supports_screens (parse_aapt2_output W text) = []) \<and>
   (re_search pat_anyden text = None \<longrightarrow>
      supports_any_density (parse_aapt2_output W text) = []) \<and>
   (re_search pat_dens text = None \<longrightarrow> densities (parse_aapt2_output W text) = []) \<and>
   (re_search pat_loc text = None \<longrightarrow> locales (parse_aapt2_output W text) = []) \<and>
   (re_search pat_icon text = None \<longrightarrow> icons (parse_aapt2_output W text) = []) \<and>
   ((\<forall>l \<in> set (splitlines text). is_arch_line l \<longrightarrow>
        re_search pat_quoted (strip l) = None) \<longrightarrow>
      architectures (parse_aapt2_output W text) = [])"
proof (intro conjI impI)
  show "raw (parse_aapt2_output W text) = strip text" by (simp add: raw_parse)
next
  assume "no_pattern_occurs W text"
  then show "parse_aapt2_output W text =
     \<lparr>package_name = [], version_name = [], version_code = [],
      platform_build_version_name = [], platform_build_version_code = [],
      compile_sdk_version = [], compile_sdk_codename = [], min_sdk = [], target_sdk = [],
      app_name = [], app_name_labels = [], launchable_activity = [], permissions = [],
      features = [], implied_features = [], supports_screens = [],
      supports_any_density = [], densities = [], locales = [], icons = [],
      raw = strip text, architectures = []\<rparr>"
    by (rule no_pattern_record)
next
  assume "re_search pat_pkg text = None"
  then show "package_name (parse_aapt2_output W text) = []"
    "version_code (parse_aapt2_output W text) = []"
    "version_name (parse_aapt2_output W text) = []"
    by (simp_all add: package_name_parse version_code_parse version_name_parse)
next
  assume "re_search pat_plat text = None"
  then show "platform_build_version_name (parse_aapt2_output W text) = []"
    by (simp add: platform_build_version_name_parse)
next
  assume "re_search pat_platc text = None"
  then show "platform_build_version_code (parse_aapt2_output W text) = []"
    by (simp add: platform_build_version_code_parse)
next
  assume "re_search pat_compile text = None"
  then show "compile_sdk_version (parse_aapt2_output W text) = []"
    by (simp add: compile_sdk_version_parse)
next
  assume "re_search pat_compile_code text = None"
  then show "compile_sdk_codename (parse_aapt2_output W text) = []"
    by (simp add: compile_sdk_codename_parse)
next
  assume "re_search pat_min text = None"
  then show "min_sdk (parse_aapt2_output W text) = []" by (simp add: min_sdk_parse)
next
  assume "re_search pat_target text = None"
  then show "target_sdk (parse_aapt2_output W text) = []" by (simp add: target_sdk_parse)
next
  assume "re_search (pat_label_loc W) text = None"
  then show "app_name_labels (parse_aapt2_output W text) = []"
    by (simp add: app_name_labels_parse findall2_None store_all_def)
next
  assume "re_search (pat_label_loc W) text = None \<and> re_search pat_label_generic text = None \<and>
    re_search pat_label_app text = None"
  then show "app_name (parse_aapt2_output W text) = []"
    by (simp add: app_name_parse findall2_None store_all_def generic_label_of_def
        app_node_label_of_def py_or_def dict_get_def)
next
  assume "re_search pat_launch text = None"
  then show "launchable_activity (parse_aapt2_output W text) = []"
    by (simp add: launchable_activity_parse)
next
  assume "re_search pat_permission text = None"
  then show "permissions (parse_aapt2_output W text) = []"
    by (simp add: permissions_parse findall1_None)
next
  assume "re_search pat_feature text = None"
  then show "features (parse_aapt2_output W text) = []"
    by (simp add: features_parse findall1_None)
next
  assume "re_search pat_implied text = None"
  then show "implied_features (parse_aapt2_output W text) = []"
    by (simp add: implied_features_parse findall1_None)
next
  assume "re_search pat_screens text = None"
  then show "supports_screens (parse_aapt2_output W text) = []"
    by (simp add: supports_screens_parse)
next
  assume "re_search pat_anyden text = None"
  then show "supports_any_density (parse_aapt2_output W text) = []"
    by (simp add: supports_any_density_parse)
next
  assume "re_search pat_dens text = None"
  then show "densities (parse_aapt2_output W text) = []" by (simp add: densities_parse)
next
  assume "re_search pat_loc text = None"
  then show "locales (parse_aapt2_output W text) = []" by (simp add: locales_parse)
next
  assume "re_search pat_icon text = None"
  then show "icons (parse_aapt2_output W text) = []"
    by (simp add: icons_parse findall2_None store_all_def)
next
  assume "\<forall>l \<in> set (splitlines text). is_arch_line l \<longrightarrow>
        re_search pat_quoted (strip l) = None"
  then show "architectures (parse_aapt2_output W text) = []"
    by (simp add: architectures_parse arch_loop_none)
qed

theorem parse_total_zero_witness:
  "parse_aapt2_output (\<lambda>c. False) (ords ''  no package here  \<newline>'') =
     \<lparr>package_name = [], version_name = [], version_code = [],
      platform_build_version_name = [], platform_build_version_code = [],
      compile_sdk_version = [], compile_sdk_codename = [], min_sdk = [], target_sdk = [],
      app_name = [], app_name_labels = [], launchable_activity = [], permissions = [],
      features = [], implied_features = [], supports_screens = [],
      supports_any_density = [], densities = [], locales = [], icons = [],
      raw = ords ''no package here'', architectures = []\<rparr>"
  using parse_total_zero [of "\<lambda>c. False" "ords ''  no package here  \<newline>''"]
    quote_free_no_pattern [of "ords ''  no package here  \<newline>''" "\<lambda>c. False"]
  by (simp add: ords_def strip_def is_space_def)

section \<open>Icons\<close>

lemma fold_update_map_of:
  "map_of (fold (\<lambda>kv d. AList.update (fst kv) (snd kv) d) kvs d0) = map_of (rev kvs @ d0)"
proof (induction kvs arbitrary: d0)
  case Nil
  show ?case by simp
next
  case (Cons kv kvs)
  show ?case by (simp add: Cons.IH update_conv' map_add_def fun_eq_iff split: option.splits)
qed

lemma fold_update_distinct:
  "distinct (map fst d0) \<Longrightarrow>
   distinct (map fst (fold (\<lambda>kv d. AList.update (fst kv) (snd kv) d) kvs d0))"
  by (induction kvs arbitrary: d0) (simp_all add: distinct_update)

lemma store_all_map_of: "map_of (store_all kvs) = map_of (rev kvs)"
  by (simp add: store_all_def fold_update_map_of)

lemma store_all_distinct: "distinct (map fst (store_all kvs))"
  by (simp add: store_all_def fold_update_distinct)

lemma store_all_keys: "fst ` set (store_all kvs) = fst ` set kvs"
proof -
  have "dom (map_of (store_all kvs)) = dom (map_of (rev kvs))" by (simp add: store_all_map_of)
  then show ?thesis by (simp add: dom_map_of_conv_image_fst)
qed

lemma update_fresh: "k \<notin> fst ` set al \<Longrightarrow> AList.update k v al = al @ [(k, v)]"
  by (induction al) auto

lemma fold_update_fresh:
  "distinct (map fst kvs) \<Longrightarrow> fst ` set kvs \<inter> fst ` set d0 = {} \<Longrightarrow>
   fold (\<lambda>kv d. AList.update (fst kv) (snd kv) d) kvs d0 = d0 @ kvs"
proof (induction kvs arbitrary: d0)
  case Nil
  show ?case by simp
next
  case (Cons kv kvs)
  from Cons.prems have f: "fst kv \<notin> fst ` set d0" by auto
  from Cons.prems have "fst ` set kvs \<inter> fst ` set (d0 @ [kv]) = {}" by auto
  with Cons.prems Cons.IH [of "d0 @ [kv]"] f show ?case by (simp add: update_fresh)
qed

lemma store_all_fresh: "distinct (map fst kvs) \<Longrightarrow> store_all kvs = kvs"
  by (simp add: store_all_def fold_update_fresh)

text \<open>
  C6. The icons are a dictionary filled by one assignment per match of the icon
  pattern, in the order of the matches, keyed by the density string. Its keys are the
  densities that were matched, each once; every key holds the path of the last match
  with that density; where the matched densities are all different there is one entry
  per match, in the order of the matches. The text of the specification's example gives
  exactly the two entries, and sorting by the number that the key denotes lists 48
  before 192, also where 192 comes first in the text.
\<close>

theorem icons_keyed_by_density:
  "map_of (icons (parse_aapt2_output W text)) = map_of (rev (findall2 pat_icon text)) \<and>
   distinct (map fst (icons (parse_aapt2_output W text))) \<and>
   fst ` set (icons (parse_aapt2_output W text)) = fst ` set (findall2 pat_icon text) \<and>
   (distinct (map fst (findall2 pat_icon text)) \<longrightarrow>
      icons (parse_aapt2_output W text) = findall2 pat_icon text) \<and>
   icons (parse_aapt2_output W
       (ords ''application-icon-48:'res/icon48.png'\<newline>application-icon-192:'res/icon192.png'\<newline>''))
     = [(ords ''48'', ords ''res/icon48.png''), (ords ''192'', ords ''res/icon192.png'')] \<and>
   sorted_icons (icons (parse_aapt2_output W
       (ords ''application-icon-192:'res/icon192.png'\<newline>application-icon-48:'res/icon48.png'\<newline>'')))
     = [(ords ''48'', ords ''res/icon48.png''), (ords ''192'', ords ''res/icon192.png'')]"
proof (intro conjI impI)
  show "map_of (icons (parse_aapt2_output W text)) = map_of (rev (findall2 pat_icon text))"
    by (simp add: icons_parse store_all_map_of)
  show "distinct (map fst (icons (parse_aapt2_output W text)))"
    by (simp add: icons_parse store_all_distinct)
  show "fst ` set (icons (parse_aapt2_output W text)) = fst ` set (findall2 pat_icon text)"
    by (simp add: icons_parse store_all_keys)
  show "icons (parse_aapt2_output W text) = findall2 pat_icon text"
    if "distinct (map fst (findall2 pat_icon text))"
    using that by (simp add: icons_parse store_all_fresh)
  show "icons (parse_aapt2_output W
       (ords ''application-icon-48:'res/icon48.png'\<newline>application-icon-192:'res/icon192.png'\<newline>''))
     = [(ords ''48'', ords ''res/icon48.png''), (ords ''192'', ords ''res/icon192.png'')]"
    by (simp add: icons_parse pat_icon_def eval_simps)
  show "sorted_icons (icons (parse_aapt2_output W
       (ords ''application-icon-192:'res/icon192.png'\<newline>application-icon-48:'res/icon48.png'\<newline>'')))
     = [(ords ''48'', ords ''res/icon48.png''), (ords ''192'', ords ''res/icon192.png'')]"
    by (simp add: icons_parse pat_icon_def sorted_icons_def int_of_digits_def eval_simps)
qed

theorem icons_keyed_by_density_witness:
  "icons (parse_aapt2_output (\<lambda>c. False)
       (ords ''application-icon-160:'a.png'\<newline> application-icon-48:'b.png'\<newline>''))
     = [(ords ''160'', ords ''a.png''), (ords ''48'', ords ''b.png'')]"
  using icons_keyed_by_density [of "\<lambda>c. False"
      "ords ''application-icon-160:'a.png'\<newline> application-icon-48:'b.png'\<newline>''"]
  by (simp add: pat_icon_def eval_simps)

text \<open>
  The claim as it is written, one entry per matched occurrence, fails where a density
  occurs twice: the pattern matches twice and the dictionary has one entry, which holds
  the path of the second match.
\<close>

theorem icons_counterexample:
  "findall2 pat_icon
      (ords ''application-icon-48:'a.png'\<newline>application-icon-48:'b.png'\<newline>'')
     = [(ords ''48'', ords ''a.png''), (ords ''48'', ords ''b.png'')] \<and>
   icons (parse_aapt2_output (\<lambda>c. False)
      (ords ''application-icon-48:'a.png'\<newline>application-icon-48:'b.png'\<newline>''))
     = [(ords ''48'', ords ''b.png'')]"
  by (simp add: icons_parse pat_icon_def eval_simps)

section \<open>The text that a match has read\<close>

lemma ms_Lit_E:
  assumes "(s', c') \<in> set (ms (Lit w) s c)"
  shows "s = w @ s' \<and> c' = c"
proof -
  from assms have t: "take (length w) s = w" and d: "s' = drop (length w) s" and "c' = c"
    by (auto simp: ms.simps(1) split: if_splits)
  have "s = take (length w) s @ drop (length w) s" by simp
  with t d \<open>c' = c\<close> show ?thesis by simp
qed

lemma ms_Seq_E:
  assumes "(s', c') \<in> set (ms (Seq a b) s c)"
  obtains s1 c1 where "(s1, c1) \<in> set (ms a s c)" and "(s', c') \<in> set (ms b s1 c1)"
  using assms by (auto simp: ms.simps(3))

lemma ms_Cls_E:
  assumes "(s', c') \<in> set (ms (Cls P) s c)"
  shows "\<exists>x. s = x # s' \<and> P x \<and> c' = c"
  using assms by (auto simp: ms.simps(2) split: list.splits if_splits)

lemma ms_Star_Cls_Nil: "ms (Star (Cls P)) [] c = [([], c)]"
  by (subst ms.simps(5)) (simp add: ms.simps(2))

lemma ms_Star_Cls_Cons:
  "ms (Star (Cls P)) (x # t) c = (if P x then ms (Star (Cls P)) t c else []) @ [(x # t, c)]"
  by (subst ms.simps(5)) (simp add: ms.simps(2))

lemma ms_Star_Cls_E:
  "(s', c') \<in> set (ms (Star (Cls P)) s c) \<Longrightarrow> \<exists>u. s = u @ s' \<and> list_all P u \<and> c' = c"
proof (induction s)
  case Nil
  then show ?case by (simp add: ms_Star_Cls_Nil)
next
  case (Cons x t)
  from Cons.prems consider "(s', c') = (x # t, c)" | "P x" "(s', c') \<in> set (ms (Star (Cls P)) t c)"
    by (auto simp: ms_Star_Cls_Cons split: if_splits)
  then show ?case
  proof cases
    case 1
    then show ?thesis by simp
  next
    case 2
    from Cons.IH [OF 2(2)] obtain u where "t = u @ s'" "list_all P u" "c' = c" by blast
    with 2(1) have "x # t = (x # u) @ s' \<and> list_all P (x # u) \<and> c' = c" by simp
    then show ?thesis by blast
  qed
qed

lemma ms_Plus_Cls_E:
  assumes "(s', c') \<in> set (ms (Plus (Cls P)) s c)"
  shows "\<exists>u. s = u @ s' \<and> u \<noteq> [] \<and> list_all P u \<and> c' = c"
proof -
  from assms obtain s1 c1 where a: "(s1, c1) \<in> set (ms (Cls P) s c)"
    and b: "(s', c') \<in> set (ms (Star (Cls P)) s1 c1)"
    unfolding Plus_def by (rule ms_Seq_E)
  from ms_Cls_E [OF a] obtain x where x: "s = x # s1" "P x" "c1 = c" by blast
  from ms_Star_Cls_E [OF b] obtain u where u: "s1 = u @ s'" "list_all P u" "c' = c1" by blast
  from x u have "s = (x # u) @ s' \<and> x # u \<noteq> [] \<and> list_all P (x # u) \<and> c' = c" by simp
  then show ?thesis by blast
qed

lemma ms_Grp_E:
  assumes "(s', c') \<in> set (ms (Grp n r) s c)"
  obtains c1 where "(s', c1) \<in> set (ms r s c)"
    and "c' = AList.update n (take (length s - length s') s) c1"
  using assms by (auto simp: ms.simps(7))

lemma ms_Grp_Plus_Cls_E:
  assumes "(s', c') \<in> set (ms (Grp n (Plus (Cls P))) s c)"
  shows "\<exists>u. s = u @ s' \<and> u \<noteq> [] \<and> list_all P u \<and> c' = AList.update n u c"
proof -
  from assms obtain c1 where a: "(s', c1) \<in> set (ms (Plus (Cls P)) s c)"
    and b: "c' = AList.update n (take (length s - length s') s) c1"
    by (rule ms_Grp_E)
  from ms_Plus_Cls_E [OF a] obtain u where u: "s = u @ s'" "u \<noteq> []" "list_all P u" "c1 = c"
    by blast
  with b have "c' = AList.update n u c" by simp
  with u show ?thesis by blast
qed

lemma ms_Grp_Star_Cls_E:
  assumes "(s', c') \<in> set (ms (Grp n (Star (Cls P))) s c)"
  shows "\<exists>u. s = u @ s' \<and> list_all P u \<and> c' = AList.update n u c"
proof -
  from assms obtain c1 where a: "(s', c1) \<in> set (ms (Star (Cls P)) s c)"
    and b: "c' = AList.update n (take (length s - length s') s) c1"
    by (rule ms_Grp_E)
  from ms_Star_Cls_E [OF a] obtain u where u: "s = u @ s'" "list_all P u" "c1 = c"
    by blast
  with b have "c' = AList.update n u c" by simp
  with u show ?thesis by blast
qed

lemma match_at_Some_E: "match_at r s = Some (s', m) \<Longrightarrow> (s', m) \<in> set (ms r s [])"
  by (auto simp: match_at_def split: list.splits)

lemma re_search_Some_E:
  "re_search r text = Some m \<Longrightarrow> \<exists>pre s s'. text = pre @ s \<and> match_at r s = Some (s', m)"
proof (induction "text")
  case Nil
  then have "\<exists>s'. match_at r [] = Some (s', m)" by (auto split: option.splits)
  then show ?case by auto
next
  case (Cons x xs)
  show ?case
  proof (cases "match_at r (x # xs)")
    case None
    with Cons.prems have "re_search r xs = Some m" by simp
    from Cons.IH [OF this] obtain pre s s' where "xs = pre @ s" "match_at r s = Some (s', m)"
      by blast
    then have "x # xs = (x # pre) @ s \<and> match_at r s = Some (s', m)" by simp
    then show ?thesis by blast
  next
    case (Some p)
    with Cons.prems have "match_at r (x # xs) = Some (fst p, m)" by (cases p) simp
    then have "x # xs = [] @ (x # xs) \<and> match_at r (x # xs) = Some (fst p, m)" by simp
    then show ?thesis by blast
  qed
qed

lemma is_value_iff: "is_value v \<longleftrightarrow> v \<noteq> [] \<and> list_all not_quote v"
  by (auto simp: is_value_def not_quote_def list_all_iff)


lemma ms_LazyStar_Cls_Nil: "ms (LazyStar (Cls P)) [] c = [([], c)]"
  by (subst ms.simps(6)) (simp add: ms.simps(2))

lemma ms_LazyStar_Cls_Cons:
  "ms (LazyStar (Cls P)) (x # t) c =
     (x # t, c) # (if P x then ms (LazyStar (Cls P)) t c else [])"
  by (subst ms.simps(6)) (simp add: ms.simps(2))

lemma ms_LazyStar_Cls_E: "(s', c') \<in> set (ms (LazyStar (Cls P)) s c) \<Longrightarrow> c' = c"
  by (induction s) (auto simp: ms_LazyStar_Cls_Nil ms_LazyStar_Cls_Cons split: if_splits)

text \<open>One step along a sequence of patterns.\<close>

lemma seqs_Lit_E:
  assumes "(s', c') \<in> set (ms (seqs (Lit w # r # rs)) s c)"
  obtains t where "s = w @ t" and "(s', c') \<in> set (ms (seqs (r # rs)) t c)"
proof -
  from assms obtain s1 c1 where a: "(s1, c1) \<in> set (ms (Lit w) s c)"
    and b: "(s', c') \<in> set (ms (seqs (r # rs)) s1 c1)"
    by (auto elim: ms_Seq_E)
  from ms_Lit_E [OF a] b that show ?thesis by simp
qed

lemma seqs_quote_E:
  assumes "(s', c') \<in> set (ms (seqs (quote # r # rs)) s c)"
  obtains t where "s = 39 # t" and "(s', c') \<in> set (ms (seqs (r # rs)) t c)"
  using assms unfolding quote_def by (rule seqs_Lit_E) simp

lemma seqs_sp_E:
  assumes "(s', c') \<in> set (ms (seqs (Plus sp # r # rs)) s c)"
  obtains ws t where "s = ws @ t" and "is_blank ws" and "(s', c') \<in> set (ms (seqs (r # rs)) t c)"
proof -
  from assms obtain s1 c1 where a: "(s1, c1) \<in> set (ms (Plus (Cls is_space)) s c)"
    and b: "(s', c') \<in> set (ms (seqs (r # rs)) s1 c1)"
    by (auto simp: sp_def elim: ms_Seq_E)
  from ms_Plus_Cls_E [OF a] obtain u where "s = u @ s1" "u \<noteq> []" "list_all is_space u" "c1 = c"
    by blast
  with b that show ?thesis by (simp add: is_blank_def)
qed

lemma seqs_value_E:
  assumes "(s', c') \<in> set (ms (seqs (Grp n (Plus nq) # r # rs)) s c)"
  obtains v t where "s = v @ t" and "is_value v"
    and "(s', c') \<in> set (ms (seqs (r # rs)) t (AList.update n v c))"
proof -
  from assms obtain s1 c1 where a: "(s1, c1) \<in> set (ms (Grp n (Plus (Cls not_quote))) s c)"
    and b: "(s', c') \<in> set (ms (seqs (r # rs)) s1 c1)"
    by (auto simp: nq_def elim: ms_Seq_E)
  from ms_Grp_Plus_Cls_E [OF a] obtain u where "s = u @ s1" "u \<noteq> []" "list_all not_quote u"
    "c1 = AList.update n u c"
    by blast
  with b that show ?thesis by (simp add: is_value_iff)
qed

section \<open>The package line\<close>

lemma pat_pkg_E:
  assumes "(s', m) \<in> set (ms pat_pkg s [])"
  shows "\<exists>ws1 n ws2 vc ws3 vn rest.
           s = package_line ws1 n ws2 vc ws3 vn @ rest \<and>
           is_blank ws1 \<and> is_blank ws2 \<and> is_blank ws3 \<and>
           is_value n \<and> is_value vc \<and> is_value vn \<and>
           group m 1 = n \<and> group m 2 = vc \<and> group m 3 = vn"
proof -
  from assms have f0: "(s', m) \<in> set (ms (seqs [Lit (ords ''package:''), Plus sp, Lit (ords ''name=''), quote, Grp 1 (Plus nq), quote, Plus sp, Lit (ords ''versionCode=''), quote, Grp 2 (Plus nq), quote, Plus sp, Lit (ords ''versionName=''), quote, Grp 3 (Plus nq), quote, LazyStar (Cls (\<lambda>c. True))]) s [])"
    by (simp only: pat_pkg_def)
  from f0 obtain t1 where e0: "s = ords ''package:'' @ t1"
    and f1: "(s', m) \<in> set (ms (seqs [Plus sp, Lit (ords ''name=''), quote, Grp 1 (Plus nq), quote, Plus sp, Lit (ords ''versionCode=''), quote, Grp 2 (Plus nq), quote, Plus sp, Lit (ords ''versionName=''), quote, Grp 3 (Plus nq), quote, LazyStar (Cls (\<lambda>c. True))]) t1 [])"
    by (rule seqs_Lit_E)
  from f1 obtain ws1 t2 where e1: "t1 = ws1 @ t2" and b1: "is_blank ws1"
    and f2: "(s', m) \<in> set (ms (seqs [Lit (ords ''name=''), quote, Grp 1 (Plus nq), quote, Plus sp, Lit (ords ''versionCode=''), quote, Grp 2 (Plus nq), quote, Plus sp, Lit (ords ''versionName=''), quote, Grp 3 (Plus nq), quote, LazyStar (Cls (\<lambda>c. True))]) t2 [])"
    by (rule seqs_sp_E)
  from f2 obtain t3 where e2: "t2 = ords ''name='' @ t3"
    and f3: "(s', m) \<in> set (ms (seqs [quote, Grp 1 (Plus nq), quote, Plus sp, Lit (ords ''versionCode=''), quote, Grp 2 (Plus nq), quote, Plus sp, Lit (ords ''versionName=''), quote, Grp 3 (Plus nq), quote, LazyStar (Cls (\<lambda>c. True))]) t3 [])"
    by (rule seqs_Lit_E)
  from f3 obtain t4 where e3: "t3 = 39 # t4"
    and f4: "(s', m) \<in> set (ms (seqs [Grp 1 (Plus nq), quote, Plus sp, Lit (ords ''versionCode=''), quote, Grp 2 (Plus nq), quote, Plus sp, Lit (ords ''versionName=''), quote, Grp 3 (Plus nq), quote, LazyStar (Cls (\<lambda>c. True))]) t4 [])"
    by (rule seqs_quote_E)
  from f4 obtain n t5 where e4: "t4 = n @ t5" and b4: "is_value n"
    and f5: "(s', m) \<in> set (ms (seqs [quote, Plus sp, Lit (ords ''versionCode=''), quote, Grp 2 (Plus nq), quote, Plus sp, Lit (ords ''versionName=''), quote, Grp 3 (Plus nq), quote, LazyStar (Cls (\<lambda>c. True))]) t5 (AList.update 1 n []))"
    by (rule seqs_value_E)
  from f5 obtain t6 where e5: "t5 = 39 # t6"
    and f6: "(s', m) \<in> set (ms (seqs [Plus sp, Lit (ords ''versionCode=''), quote, Grp 2 (Plus nq), quote, Plus sp, Lit (ords ''versionName=''), quote, Grp 3 (Plus nq), quote, LazyStar (Cls (\<lambda>c. True))]) t6 (AList.update 1 n []))"
    by (rule seqs_quote_E)
  from f6 obtain ws2 t7 where e6: "t6 = ws2 @ t7" and b6: "is_blank ws2"
    and f7: "(s', m) \<in> set (ms (seqs [Lit (ords ''versionCode=''), quote, Grp 2 (Plus nq), quote, Plus sp, Lit (ords ''versionName=''), quote, Grp 3 (Plus nq), quote, LazyStar (Cls (\<lambda>c. True))]) t7 (AList.update 1 n []))"
    by (rule seqs_sp_E)
  from f7 obtain t8 where e7: "t7 = ords ''versionCode='' @ t8"
    and f8: "(s', m) \<in> set (ms (seqs [quote, Grp 2 (Plus nq), quote, Plus sp, Lit (ords ''versionName=''), quote, Grp 3 (Plus nq), quote, LazyStar (Cls (\<lambda>c. True))]) t8 (AList.update 1 n []))"
    by (rule seqs_Lit_E)
  from f8 obtain t9 where e8: "t8 = 39 # t9"
    and f9: "(s', m) \<in> set (ms (seqs [Grp 2 (Plus nq), quote, Plus sp, Lit (ords ''versionName=''), quote, Grp 3 (Plus nq), quote, LazyStar (Cls (\<lambda>c. True))]) t9 (AList.update 1 n []))"
    by (rule seqs_quote_E)
  from f9 obtain vc t10 where e9: "t9 = vc @ t10" and b9: "is_value vc"
    and f10: "(s', m) \<in> set (ms (seqs [quote, Plus sp, Lit (ords ''versionName=''), quote, Grp 3 (Plus nq), quote, LazyStar (Cls (\<lambda>c. True))]) t10 (AList.update 2 vc (AList.update 1 n [])))"
    by (rule seqs_value_E)
  from f10 obtain t11 where e10: "t10 = 39 # t11"
    and f11: "(s', m) \<in> set (ms (seqs [Plus sp, Lit (ords ''versionName=''), quote, Grp 3 (Plus nq), quote, LazyStar (Cls (\<lambda>c. True))]) t11 (AList.update 2 vc (AList.update 1 n [])))"
    by (rule seqs_quote_E)
  from f11 obtain ws3 t12 where e11: "t11 = ws3 @ t12" and b11: "is_blank ws3"
    and f12: "(s', m) \<in> set (ms (seqs [Lit (ords ''versionName=''), quote, Grp 3 (Plus nq), quote, LazyStar (Cls (\<lambda>c. True))]) t12 (AList.update 2 vc (AList.update 1 n [])))"
    by (rule seqs_sp_E)
  from f12 obtain t13 where e12: "t12 = ords ''versionName='' @ t13"
    and f13: "(s', m) \<in> set (ms (seqs [quote, Grp 3 (Plus nq), quote, LazyStar (Cls (\<lambda>c. True))]) t13 (AList.update 2 vc (AList.update 1 n [])))"
    by (rule seqs_Lit_E)
  from f13 obtain t14 where e13: "t13 = 39 # t14"
    and f14: "(s', m) \<in> set (ms (seqs [Grp 3 (Plus nq), quote, LazyStar (Cls (\<lambda>c. True))]) t14 (AList.update 2 vc (AList.update 1 n [])))"
    by (rule seqs_quote_E)
  from f14 obtain vn t15 where e14: "t14 = vn @ t15" and b14: "is_value vn"
    and f15: "(s', m) \<in> set (ms (seqs [quote, LazyStar (Cls (\<lambda>c. True))]) t15 (AList.update 3 vn (AList.update 2 vc (AList.update 1 n []))))"
    by (rule seqs_value_E)
  from f15 obtain t16 where e15: "t15 = 39 # t16"
    and f16: "(s', m) \<in> set (ms (seqs [LazyStar (Cls (\<lambda>c. True))]) t16 (AList.update 3 vn (AList.update 2 vc (AList.update 1 n []))))"
    by (rule seqs_quote_E)
  from f16 have m: "m = AList.update 3 vn (AList.update 2 vc (AList.update 1 n []))"
    by (simp add: ms_LazyStar_Cls_E)
  have "s = package_line ws1 n ws2 vc ws3 vn @ t16"
    by (simp add: package_line_def e0 e1 e2 e3 e4 e5 e6 e7 e8 e9 e10 e11 e12 e13 e14 e15)
  moreover have "group m 1 = n \<and> group m 2 = vc \<and> group m 3 = vn"
    by (simp add: m group_def update_conv')
  ultimately show ?thesis using b1 b4 b6 b9 b11 b14 by blast
qed


lemma re_search_pat_pkg_E:
  assumes "re_search pat_pkg text = Some m"
  shows "\<exists>pre ws1 n ws2 vc ws3 vn rest.
           text = pre @ package_line ws1 n ws2 vc ws3 vn @ rest \<and>
           is_blank ws1 \<and> is_blank ws2 \<and> is_blank ws3 \<and>
           is_value n \<and> is_value vc \<and> is_value vn \<and>
           group m 1 = n \<and> group m 2 = vc \<and> group m 3 = vn"
proof -
  from re_search_Some_E [OF assms] obtain pre s s'
    where t: "text = pre @ s" and "match_at pat_pkg s = Some (s', m)"
    by blast
  then have "(s', m) \<in> set (ms pat_pkg s [])" by (simp add: match_at_Some_E)
  from pat_pkg_E [OF this] t show ?thesis by blast
qed

text \<open>
  C10. The three fields of the package line are set together or not at all. Either all
  three are empty, or the text holds a package line, that is the marker followed by the
  attributes \<open>name\<close>, \<open>versionCode\<close> and \<open>versionName\<close> in this order, and the three
  fields are the three values of that one line, none of them empty. A package line
  that has only the attribute \<open>name\<close>, or the attributes in another order, leaves all
  three fields empty.
\<close>

theorem package_all_or_nothing:
  "((package_name (parse_aapt2_output W text) = [] \<and>
     version_code (parse_aapt2_output W text) = [] \<and>
     version_name (parse_aapt2_output W text) = []) \<or>
    (\<exists>pre ws1 n ws2 vc ws3 vn rest.
       text = pre @ package_line ws1 n ws2 vc ws3 vn @ rest \<and>
       is_blank ws1 \<and> is_blank ws2 \<and> is_blank ws3 \<and>
       is_value n \<and> is_value vc \<and> is_value vn \<and>
       package_name (parse_aapt2_output W text) = n \<and>
       version_code (parse_aapt2_output W text) = vc \<and>
       version_name (parse_aapt2_output W text) = vn)) \<and>
   package_name (parse_aapt2_output W (ords ''package: name='X'\<newline>'')) = [] \<and>
   version_code (parse_aapt2_output W (ords ''package: name='X'\<newline>'')) = [] \<and>
   version_name (parse_aapt2_output W (ords ''package: name='X'\<newline>'')) = [] \<and>
   package_name (parse_aapt2_output W
     (ords ''package: name='X' versionName='1.0' versionCode='1'\<newline>'')) = []"
proof (intro conjI)
  show "(package_name (parse_aapt2_output W text) = [] \<and>
     version_code (parse_aapt2_output W text) = [] \<and>
     version_name (parse_aapt2_output W text) = []) \<or>
    (\<exists>pre ws1 n ws2 vc ws3 vn rest.
       text = pre @ package_line ws1 n ws2 vc ws3 vn @ rest \<and>
       is_blank ws1 \<and> is_blank ws2 \<and> is_blank ws3 \<and>
       is_value n \<and> is_value vc \<and> is_value vn \<and>
       package_name (parse_aapt2_output W text) = n \<and>
       version_code (parse_aapt2_output W text) = vc \<and>
       version_name (parse_aapt2_output W text) = vn)"
  proof (cases "re_search pat_pkg text")
    case None
    then show ?thesis by (simp add: package_name_parse version_code_parse version_name_parse)
  next
    case (Some m)
    from re_search_pat_pkg_E [OF Some] show ?thesis
      by (simp add: package_name_parse version_code_parse version_name_parse Some)
  qed
  show "package_name (parse_aapt2_output W (ords ''package: name='X'\<newline>'')) = []"
    by (simp add: package_name_parse pat_pkg_def eval_simps)
  show "version_code (parse_aapt2_output W (ords ''package: name='X'\<newline>'')) = []"
    by (simp add: version_code_parse pat_pkg_def eval_simps)
  show "version_name (parse_aapt2_output W (ords ''package: name='X'\<newline>'')) = []"
    by (simp add: version_name_parse pat_pkg_def eval_simps)
  show "package_name (parse_aapt2_output W
     (ords ''package: name='X' versionName='1.0' versionCode='1'\<newline>'')) = []"
    by (simp add: package_name_parse pat_pkg_def eval_simps)
qed

theorem package_all_or_nothing_witness:
  "package_name (parse_aapt2_output (\<lambda>c. False)
     (ords ''package: name='com.x' versionCode='7' versionName='1.0' sdk='3'\<newline>'')) = ords ''com.x'' \<and>
   version_code (parse_aapt2_output (\<lambda>c. False)
     (ords ''package: name='com.x' versionCode='7' versionName='1.0' sdk='3'\<newline>'')) = ords ''7'' \<and>
   version_name (parse_aapt2_output (\<lambda>c. False)
     (ords ''package: name='com.x' versionCode='7' versionName='1.0' sdk='3'\<newline>'')) = ords ''1.0''"
  using package_all_or_nothing [of "\<lambda>c. False"
     "ords ''package: name='com.x' versionCode='7' versionName='1.0' sdk='3'\<newline>''"]
  by (simp add: package_name_parse version_code_parse version_name_parse pat_pkg_def eval_simps)

section \<open>The first match\<close>

lemma ms_Lit_app: "ms (Lit w) (w @ s) c = [(s, c)]"
  by (simp add: ms.simps(1))

lemma ms_Lit_other: "x \<noteq> y \<Longrightarrow> ms (Lit (x # w)) (y # t) c = []"
  by (simp add: ms.simps(1))

lemma ms_Seq_Nil: "ms a s c = [] \<Longrightarrow> ms (Seq a b) s c = []"
  by (simp add: ms.simps(3))

lemma ms_Seq_single: "ms a s c = [(s1, c1)] \<Longrightarrow> ms (Seq a b) s c = ms b s1 c1"
  by (simp add: ms.simps(3))

lemma ms_Seq_first:
  assumes "ms a s c = p # ps" and "\<And>q. q \<in> set ps \<Longrightarrow> ms b (fst q) (snd q) = []"
  shows "ms (Seq a b) s c = ms b (fst p) (snd p)"
proof -
  have "concat (map (\<lambda>q. ms b (fst q) (snd q)) ps) = []" using assms(2) by simp
  with assms(1) show ?thesis by (simp add: ms.simps(3))
qed

lemma seqs_Lit_app: "ms (seqs (Lit w # r # rs)) (w @ s) c = ms (seqs (r # rs)) s c"
  by (simp add: ms_Seq_single [OF ms_Lit_app])

lemma seqs_Lit_other: "x \<noteq> y \<Longrightarrow> ms (seqs (Lit (x # w) # r # rs)) (y # t) c = []"
  by (simp add: ms_Seq_Nil ms_Lit_other)


lemma seqs_quote_app: "ms (seqs (quote # r # rs)) (39 # s) c = ms (seqs (r # rs)) s c"
  using seqs_Lit_app [of "[39]" r rs s c] by (simp add: quote_def)

text \<open>
  A greedy run of a class reads all of \<open>u\<close> first; every other way to stop leaves a
  text that begins with a code point of the class.
\<close>

lemma ms_Star_Cls_app:
  assumes "list_all P u" and "s = [] \<or> \<not> P (hd s)"
  shows "\<exists>ps. ms (Star (Cls P)) (u @ s) c = (s, c) # ps \<and>
              (\<forall>p \<in> set ps. \<exists>y t. fst p = y # t \<and> P y)"
  using assms(1)
proof (induction u)
  case Nil
  from assms(2) show ?case
    by (cases s) (simp_all add: ms_Star_Cls_Nil ms_Star_Cls_Cons)
next
  case (Cons x u)
  then obtain ps where ps: "ms (Star (Cls P)) (u @ s) c = (s, c) # ps"
    "\<forall>p \<in> set ps. \<exists>y t. fst p = y # t \<and> P y"
    by auto
  from Cons.prems have "P x" by simp
  with ps have "ms (Star (Cls P)) ((x # u) @ s) c = (s, c) # (ps @ [(x # u @ s, c)])"
    by (simp add: ms_Star_Cls_Cons)
  moreover from ps(2) \<open>P x\<close> have "\<forall>p \<in> set (ps @ [(x # u @ s, c)]). \<exists>y t. fst p = y # t \<and> P y"
    by auto
  ultimately show ?case by blast
qed

lemma ms_Plus_Cls_app:
  assumes "u \<noteq> []" and "list_all P u" and "s = [] \<or> \<not> P (hd s)"
  shows "\<exists>ps. ms (Plus (Cls P)) (u @ s) c = (s, c) # ps \<and>
              (\<forall>p \<in> set ps. \<exists>y t. fst p = y # t \<and> P y)"
proof -
  from assms(1) obtain x u' where u: "u = x # u'" by (cases u) auto
  with assms(2) have "P x" "list_all P u'" by simp_all
  then have "ms (Plus (Cls P)) (u @ s) c = ms (Star (Cls P)) (u' @ s) c"
    by (simp add: Plus_def u ms.simps(3) ms.simps(2))
  with ms_Star_Cls_app [OF \<open>list_all P u'\<close> assms(3), of c] show ?thesis by simp
qed

lemma ms_Plus_Cls_Nil: "s = [] \<or> \<not> P (hd s) \<Longrightarrow> ms (Plus (Cls P)) s c = []"
  by (cases s) (simp_all add: Plus_def ms.simps(3) ms.simps(2))

lemma ms_Grp_first:
  assumes "ms r (u @ s) c = (s, c1) # ps" and "\<forall>p \<in> set ps. \<exists>y t. fst p = y # t \<and> P y"
  shows "\<exists>qs. ms (Grp n r) (u @ s) c = (s, AList.update n u c1) # qs \<and>
              (\<forall>p \<in> set qs. \<exists>y t. fst p = y # t \<and> P y)"
  using assms by (simp add: ms.simps(7))

text \<open>
  What follows the run refuses every text that begins with a code point of the class,
  so the greedy choice is the only one that goes on.
\<close>

lemma seqs_Plus_Cls_app:
  assumes "u \<noteq> []" and "list_all P u" and "s = [] \<or> \<not> P (hd s)"
    and "\<And>y t c'. P y \<Longrightarrow> ms (seqs (r # rs)) (y # t) c' = []"
  shows "ms (seqs (Plus (Cls P) # r # rs)) (u @ s) c = ms (seqs (r # rs)) s c"
proof -
  from ms_Plus_Cls_app [OF assms(1-3), of c] obtain ps
    where ps: "ms (Plus (Cls P)) (u @ s) c = (s, c) # ps"
      "\<forall>p \<in> set ps. \<exists>y t. fst p = y # t \<and> P y"
    by blast
  have "ms (seqs (r # rs)) (fst q) (snd q) = []" if "q \<in> set ps" for q
  proof -
    from ps(2) that obtain y t where "fst q = y # t" "P y" by blast
    with assms(4) show ?thesis by simp
  qed
  with ps(1) show ?thesis by (simp add: ms_Seq_first)
qed

lemma seqs_Grp_Plus_Cls_app:
  assumes "u \<noteq> []" and "list_all P u" and "s = [] \<or> \<not> P (hd s)"
    and "\<And>y t c'. P y \<Longrightarrow> ms (seqs (r # rs)) (y # t) c' = []"
  shows "ms (seqs (Grp n (Plus (Cls P)) # r # rs)) (u @ s) c =
           ms (seqs (r # rs)) s (AList.update n u c)"
proof -
  from ms_Plus_Cls_app [OF assms(1-3), of c] obtain ps
    where ps: "ms (Plus (Cls P)) (u @ s) c = (s, c) # ps"
      "\<forall>p \<in> set ps. \<exists>y t. fst p = y # t \<and> P y"
    by blast
  from ms_Grp_first [OF ps, of n] obtain qs
    where qs: "ms (Grp n (Plus (Cls P))) (u @ s) c = (s, AList.update n u c) # qs"
      "\<forall>p \<in> set qs. \<exists>y t. fst p = y # t \<and> P y"
    by blast
  have "ms (seqs (r # rs)) (fst q) (snd q) = []" if "q \<in> set qs" for q
  proof -
    from qs(2) that obtain y t where "fst q = y # t" "P y" by blast
    with assms(4) show ?thesis by simp
  qed
  with qs(1) show ?thesis by (simp add: ms_Seq_first)
qed

text \<open>The two runs of the patterns: whitespace before a literal, a value before its quote.\<close>

lemma seqs_sp_Lit_app:
  assumes "is_blank ws" and "\<not> is_space x"
  shows "ms (seqs (Plus sp # Lit (x # w) # r # rs)) (ws @ x # t) c =
           ms (seqs (Lit (x # w) # r # rs)) (x # t) c"
  unfolding sp_def
proof (rule seqs_Plus_Cls_app)
  from assms show "ws \<noteq> []" "list_all is_space ws" "x # t = [] \<or> \<not> is_space (hd (x # t))"
    by (simp_all add: is_blank_def)
  fix y t' c'
  assume "is_space y"
  with assms(2) have "x \<noteq> y" by auto
  then show "ms (seqs (Lit (x # w) # r # rs)) (y # t') c' = []" by (rule seqs_Lit_other)
qed

lemma value_quote_last_app:
  assumes "is_value v"
  shows "ms (seqs [Grp n (Plus nq), quote]) (v @ 39 # t) c = [(t, AList.update n v c)]"
proof -
  have "ms (seqs [Grp n (Plus (Cls not_quote)), quote]) (v @ 39 # t) c =
          ms (seqs [quote]) (39 # t) (AList.update n v c)"
  proof (rule seqs_Grp_Plus_Cls_app)
    from assms show "v \<noteq> []" "list_all not_quote v"
      "39 # t = [] \<or> \<not> not_quote (hd (39 # t))"
      by (simp_all add: is_value_iff not_quote_def)
    fix y t' c'
    assume "not_quote y"
    then show "ms (seqs [quote]) (y # t') c' = []"
      by (simp add: quote_def not_quote_def ms.simps(1))
  qed
  then show ?thesis by (simp add: nq_def quote_def ms.simps(1))
qed

lemma value_quote_app:
  assumes "is_value v"
  shows "ms (seqs (Grp n (Plus nq) # quote # r # rs)) (v @ 39 # t) c =
           ms (seqs (r # rs)) t (AList.update n v c)"
proof -
  have "ms (seqs (Grp n (Plus (Cls not_quote)) # quote # r # rs)) (v @ 39 # t) c =
          ms (seqs (quote # r # rs)) (39 # t) (AList.update n v c)"
  proof (rule seqs_Grp_Plus_Cls_app)
    from assms show "v \<noteq> []" "list_all not_quote v"
      "39 # t = [] \<or> \<not> not_quote (hd (39 # t))"
      by (simp_all add: is_value_iff not_quote_def)
    fix y t' c'
    assume "not_quote y"
    then have "39 \<noteq> y" by (simp add: not_quote_def)
    then show "ms (seqs (quote # r # rs)) (y # t') c' = []"
      unfolding quote_def by (rule seqs_Lit_other)
  qed
  then show ?thesis
    using seqs_quote_app [of r rs t "AList.update n v c"] by (simp add: nq_def)
qed

section \<open>Searching past a text without a match\<close>

lemma re_search_hit: "match_at r s = Some (s', m) \<Longrightarrow> re_search r s = Some m"
  by (cases s) simp_all

lemma re_search_unmatched: "unmatched r pre s \<Longrightarrow> re_search r (pre @ s) = re_search r s"
  by (induction pre) simp_all

lemma finditer_from_skip: "finditer_from r (length e) (e @ s) = finditer_from r 0 s"
  by (induction e) simp_all

lemma finditer_hit:
  assumes "match_at r (e @ s) = Some (s, m)" and "e \<noteq> []"
  shows "finditer_from r 0 (e @ s) = m # finditer_from r 0 s"
proof -
  from assms(2) obtain x e' where e: "e = x # e'" by (cases e) auto
  with assms(1) have "finditer_from r 0 (e @ s) = m # finditer_from r (length e') (e' @ s)"
    by simp
  then show ?thesis by (simp add: finditer_from_skip)
qed

lemma finditer_unmatched:
  "unmatched r pre s \<Longrightarrow> finditer_from r 0 (pre @ s) = finditer_from r 0 s"
  by (induction pre) simp_all



section \<open>A literal followed by a quoted value\<close>

lemma quoted_after_E:
  assumes "(s', m) \<in> set (ms (seqs [Lit k, quote, Grp 1 (Plus nq), quote]) s [])"
  shows "\<exists>v. s = k @ [39] @ v @ [39] @ s' \<and> is_value v \<and> group m 1 = v"
proof -
  from assms obtain t1 where e1: "s = k @ t1"
    and f1: "(s', m) \<in> set (ms (seqs [quote, Grp 1 (Plus nq), quote]) t1 [])"
    by (rule seqs_Lit_E)
  from f1 obtain t2 where e2: "t1 = 39 # t2"
    and f2: "(s', m) \<in> set (ms (seqs [Grp 1 (Plus nq), quote]) t2 [])"
    by (rule seqs_quote_E)
  from f2 obtain v t3 where e3: "t2 = v @ t3" and v: "is_value v"
    and f3: "(s', m) \<in> set (ms (seqs [quote]) t3 (AList.update 1 v []))"
    by (rule seqs_value_E)
  from f3 have "(s', m) \<in> set (ms (Lit [39]) t3 (AList.update 1 v []))"
    by (simp add: quote_def)
  from ms_Lit_E [OF this] have e4: "t3 = [39] @ s'" and m: "m = AList.update 1 v []"
    by simp_all
  have "s = k @ [39] @ v @ [39] @ s'" by (simp add: e1 e2 e3 e4)
  moreover have "group m 1 = v" by (simp add: m group_def)
  ultimately show ?thesis using v by blast
qed

lemma quoted_after_app:
  assumes "is_value v"
  shows "ms (seqs [Lit k, quote, Grp 1 (Plus nq), quote]) (k @ [39] @ v @ [39] @ t) [] =
           [(t, [(1, v)])]"
proof -
  have "ms (seqs [Lit k, quote, Grp 1 (Plus nq), quote]) (k @ 39 # v @ 39 # t) [] =
          ms (seqs [quote, Grp 1 (Plus nq), quote]) (39 # v @ 39 # t) []"
    by (rule seqs_Lit_app)
  also have "\<dots> = ms (seqs [Grp 1 (Plus nq), quote]) (v @ 39 # t) []"
    by (rule seqs_quote_app)
  also have "\<dots> = [(t, AList.update 1 v [])]"
    using assms by (rule value_quote_last_app)
  finally show ?thesis by simp
qed

lemma quoted_after_search_E:
  assumes "re_search (seqs [Lit k, quote, Grp 1 (Plus nq), quote]) text = Some m"
  shows "\<exists>pre rest. text = pre @ k @ [39] @ group m 1 @ [39] @ rest \<and> is_value (group m 1)"
proof -
  from re_search_Some_E [OF assms] obtain pre s s' where t: "text = pre @ s"
    and "match_at (seqs [Lit k, quote, Grp 1 (Plus nq), quote]) s = Some (s', m)"
    by blast
  then have "(s', m) \<in> set (ms (seqs [Lit k, quote, Grp 1 (Plus nq), quote]) s [])"
    by (simp add: match_at_Some_E)
  from quoted_after_E [OF this] t show ?thesis by blast
qed

lemma quoted_after_search:
  assumes "is_value v"
    and "unmatched (seqs [Lit k, quote, Grp 1 (Plus nq), quote]) pre (k @ [39] @ v @ [39] @ t)"
  shows "\<exists>m. re_search (seqs [Lit k, quote, Grp 1 (Plus nq), quote])
                (pre @ k @ [39] @ v @ [39] @ t) = Some m \<and> group m 1 = v"
proof -
  have "match_at (seqs [Lit k, quote, Grp 1 (Plus nq), quote]) (k @ [39] @ v @ [39] @ t) =
          Some (t, [(1, v)])"
    by (simp only: match_at_def quoted_after_app [OF assms(1)] list.case)
  then have "re_search (seqs [Lit k, quote, Grp 1 (Plus nq), quote]) (k @ [39] @ v @ [39] @ t) =
          Some [(1, v)]"
    by (rule re_search_hit)
  with re_search_unmatched [OF assms(2)] show ?thesis by (simp add: group_def)
qed

section \<open>The SDK levels\<close>

lemma min_sdk_sound:
  assumes "min_sdk (parse_aapt2_output W text) \<noteq> []"
  shows "\<exists>pre rest.
           text = pre @ colon_quoted (ords ''minSdkVersion'') (min_sdk (parse_aapt2_output W text)) @ rest \<and>
           is_value (min_sdk (parse_aapt2_output W text))"
proof (cases "re_search pat_min text")
  case None
  with assms show ?thesis by (simp add: min_sdk_parse)
next
  case (Some m)
  then have v: "min_sdk (parse_aapt2_output W text) = group m 1" by (simp add: min_sdk_parse)
  from Some have "re_search (seqs [Lit (ords ''minSdkVersion:''), quote, Grp 1 (Plus nq), quote]) text
      = Some m"
    by (simp only: pat_min_def)
  from quoted_after_search_E [OF this] obtain pre rest
    where "text = pre @ ords ''minSdkVersion:'' @ [39] @ group m 1 @ [39] @ rest"
      "is_value (group m 1)"
    by blast
  then have "text = pre @ colon_quoted (ords ''minSdkVersion'') (group m 1) @ rest \<and>
      is_value (group m 1)"
    by (simp add: colon_quoted_def ords_def)
  with v show ?thesis by auto
qed

lemma target_sdk_sound:
  assumes "target_sdk (parse_aapt2_output W text) \<noteq> []"
  shows "\<exists>pre rest.
           text = pre @ colon_quoted (ords ''targetSdkVersion'') (target_sdk (parse_aapt2_output W text)) @ rest \<and>
           is_value (target_sdk (parse_aapt2_output W text))"
proof (cases "re_search pat_target text")
  case None
  with assms show ?thesis by (simp add: target_sdk_parse)
next
  case (Some m)
  then have v: "target_sdk (parse_aapt2_output W text) = group m 1"
    by (simp add: target_sdk_parse)
  from Some have "re_search (seqs [Lit (ords ''targetSdkVersion:''), quote, Grp 1 (Plus nq), quote]) text
      = Some m"
    by (simp only: pat_target_def)
  from quoted_after_search_E [OF this] obtain pre rest
    where "text = pre @ ords ''targetSdkVersion:'' @ [39] @ group m 1 @ [39] @ rest"
      "is_value (group m 1)"
    by blast
  then have "text = pre @ colon_quoted (ords ''targetSdkVersion'') (group m 1) @ rest \<and>
      is_value (group m 1)"
    by (simp add: colon_quoted_def ords_def)
  with v show ?thesis by auto
qed

lemma min_sdk_first:
  assumes "is_value v"
    and "unmatched pat_min pre (colon_quoted (ords ''minSdkVersion'') v @ rest)"
  shows "min_sdk (parse_aapt2_output W (pre @ colon_quoted (ords ''minSdkVersion'') v @ rest)) = v"
proof -
  have e: "colon_quoted (ords ''minSdkVersion'') v @ rest =
      ords ''minSdkVersion:'' @ [39] @ v @ [39] @ rest"
    by (simp add: colon_quoted_def ords_def)
  from assms(2) have "unmatched (seqs [Lit (ords ''minSdkVersion:''), quote, Grp 1 (Plus nq), quote])
      pre (ords ''minSdkVersion:'' @ [39] @ v @ [39] @ rest)"
    by (simp only: e pat_min_def)
  from quoted_after_search [OF assms(1) this] obtain m
    where "re_search pat_min (pre @ colon_quoted (ords ''minSdkVersion'') v @ rest) = Some m"
      "group m 1 = v"
    by (auto simp only: e pat_min_def)
  then show ?thesis by (simp add: min_sdk_parse)
qed

lemma target_sdk_first:
  assumes "is_value v"
    and "unmatched pat_target pre (colon_quoted (ords ''targetSdkVersion'') v @ rest)"
  shows "target_sdk (parse_aapt2_output W (pre @ colon_quoted (ords ''targetSdkVersion'') v @ rest)) = v"
proof -
  have e: "colon_quoted (ords ''targetSdkVersion'') v @ rest =
      ords ''targetSdkVersion:'' @ [39] @ v @ [39] @ rest"
    by (simp add: colon_quoted_def ords_def)
  from assms(2) have "unmatched (seqs [Lit (ords ''targetSdkVersion:''), quote, Grp 1 (Plus nq), quote])
      pre (ords ''targetSdkVersion:'' @ [39] @ v @ [39] @ rest)"
    by (simp only: e pat_target_def)
  from quoted_after_search [OF assms(1) this] obtain m
    where "re_search pat_target (pre @ colon_quoted (ords ''targetSdkVersion'') v @ rest) = Some m"
      "group m 1 = v"
    by (auto simp only: e pat_target_def)
  then show ?thesis by (simp add: target_sdk_parse)
qed


text \<open>
  C7. The two SDK fields are set only from the form \<open>key:'value'\<close>. A field that is not
  empty is a value that stands in the text in this form after its key. Where the text
  holds the form with a value that is not empty and the pattern matches nowhere before
  it, the field is that value, whatever follows: the first match is taken. A text in
  which the form does not occur leaves the field empty; so does the text that holds
  only the form \<open>key='X'\<close>.
\<close>

theorem sdk_colon_quote_only:
  "(min_sdk (parse_aapt2_output W text) \<noteq> [] \<longrightarrow>
      (\<exists>pre rest. text = pre @ colon_quoted (ords ''minSdkVersion'')
                                (min_sdk (parse_aapt2_output W text)) @ rest \<and>
                  is_value (min_sdk (parse_aapt2_output W text)))) \<and>
   (target_sdk (parse_aapt2_output W text) \<noteq> [] \<longrightarrow>
      (\<exists>pre rest. text = pre @ colon_quoted (ords ''targetSdkVersion'')
                                (target_sdk (parse_aapt2_output W text)) @ rest \<and>
                  is_value (target_sdk (parse_aapt2_output W text)))) \<and>
   (is_value v \<and> unmatched pat_min pre (colon_quoted (ords ''minSdkVersion'') v @ rest) \<longrightarrow>
      min_sdk (parse_aapt2_output W (pre @ colon_quoted (ords ''minSdkVersion'') v @ rest)) = v) \<and>
   (is_value v \<and> unmatched pat_target pre (colon_quoted (ords ''targetSdkVersion'') v @ rest) \<longrightarrow>
      target_sdk (parse_aapt2_output W (pre @ colon_quoted (ords ''targetSdkVersion'') v @ rest)) = v) \<and>
   ((\<forall>p x r. text \<noteq> p @ colon_quoted (ords ''minSdkVersion'') x @ r) \<longrightarrow>
      min_sdk (parse_aapt2_output W text) = []) \<and>
   ((\<forall>p x r. text \<noteq> p @ colon_quoted (ords ''targetSdkVersion'') x @ r) \<longrightarrow>
      target_sdk (parse_aapt2_output W text) = []) \<and>
   min_sdk (parse_aapt2_output W (equals_quoted (ords ''minSdkVersion'') (ords ''X''))) = [] \<and>
   target_sdk (parse_aapt2_output W (equals_quoted (ords ''targetSdkVersion'') (ords ''X''))) = []"
proof (intro conjI impI)
  assume "min_sdk (parse_aapt2_output W text) \<noteq> []"
  then show "\<exists>pre rest. text = pre @ colon_quoted (ords ''minSdkVersion'')
                                (min_sdk (parse_aapt2_output W text)) @ rest \<and>
                  is_value (min_sdk (parse_aapt2_output W text))"
    by (rule min_sdk_sound)
next
  assume "target_sdk (parse_aapt2_output W text) \<noteq> []"
  then show "\<exists>pre rest. text = pre @ colon_quoted (ords ''targetSdkVersion'')
                                (target_sdk (parse_aapt2_output W text)) @ rest \<and>
                  is_value (target_sdk (parse_aapt2_output W text))"
    by (rule target_sdk_sound)
next
  assume "is_value v \<and> unmatched pat_min pre (colon_quoted (ords ''minSdkVersion'') v @ rest)"
  then show "min_sdk (parse_aapt2_output W (pre @ colon_quoted (ords ''minSdkVersion'') v @ rest)) = v"
    by (simp add: min_sdk_first)
next
  assume "is_value v \<and> unmatched pat_target pre (colon_quoted (ords ''targetSdkVersion'') v @ rest)"
  then show "target_sdk (parse_aapt2_output W (pre @ colon_quoted (ords ''targetSdkVersion'') v @ rest)) = v"
    by (simp add: target_sdk_first)
next
  assume a: "\<forall>p x r. text \<noteq> p @ colon_quoted (ords ''minSdkVersion'') x @ r"
  show "min_sdk (parse_aapt2_output W text) = []"
  proof (rule ccontr)
    assume "min_sdk (parse_aapt2_output W text) \<noteq> []"
    from min_sdk_sound [OF this] a show False by blast
  qed
next
  assume a: "\<forall>p x r. text \<noteq> p @ colon_quoted (ords ''targetSdkVersion'') x @ r"
  show "target_sdk (parse_aapt2_output W text) = []"
  proof (rule ccontr)
    assume "target_sdk (parse_aapt2_output W text) \<noteq> []"
    from target_sdk_sound [OF this] a show False by blast
  qed
next
  show "min_sdk (parse_aapt2_output W (equals_quoted (ords ''minSdkVersion'') (ords ''X''))) = []"
    by (simp add: min_sdk_parse pat_min_def equals_quoted_def eval_simps)
next
  show "target_sdk (parse_aapt2_output W (equals_quoted (ords ''targetSdkVersion'') (ords ''X''))) = []"
    by (simp add: target_sdk_parse pat_target_def equals_quoted_def eval_simps)
qed

theorem sdk_colon_quote_only_witness:
  "min_sdk (parse_aapt2_output (\<lambda>c. False)
     (ords ''minSdkVersion='5' '' @ colon_quoted (ords ''minSdkVersion'') (ords ''21'') @
      ords '' minSdkVersion:'30'\<newline>'')) = ords ''21'' \<and>
   target_sdk (parse_aapt2_output (\<lambda>c. False)
     (ords ''minSdkVersion='5' '' @ colon_quoted (ords ''targetSdkVersion'') (ords ''21'') @
      ords '' minSdkVersion:'30'\<newline>'')) = ords ''21''"
  using sdk_colon_quote_only [of "\<lambda>c. False" _ "ords ''21''" "ords ''minSdkVersion='5' ''"
      "ords '' minSdkVersion:'30'\<newline>''"]
  by (simp add: is_value_def pat_min_def pat_target_def colon_quoted_def eval_simps)

section \<open>What a call does to the store\<close>

lemma upd_cell_at:
  "upd_cell (Suc (Suc (length h0))) f (h0 @ [a, b, OInfo c]) = h0 @ [a, b, OInfo (f c)]"
  by (simp add: upd_cell_def nth_append list_update_append)

lemma get_cell_at: "get_cell (h0 @ [a, b, OInfo c]) (Suc (Suc (length h0))) = Some c"
  by (simp add: get_cell_def nth_append)

lemma dict_set_labels:
  "dict_set (length h0) k v (h0 @ [ODict d, b, x]) = h0 @ [ODict (AList.update k v d), b, x]"
  by (simp add: dict_set_def nth_append list_update_append)

lemma dict_set_icons:
  "dict_set (Suc (length h0)) k v (h0 @ [a, ODict d, x]) =
     h0 @ [a, ODict (AList.update k v d), x]"
  by (simp add: dict_set_def nth_append list_update_append)

lemma get_dict_labels: "get_dict (h0 @ [ODict d, b, x]) (length h0) = d"
  by (simp add: get_dict_def nth_append)

lemma get_dict_icons: "get_dict (h0 @ [a, ODict d, x]) (Suc (length h0)) = d"
  by (simp add: get_dict_def nth_append)

lemma fold_label_set:
  assumes "c_app_name_labels c = length h0"
  shows "fold (\<lambda>kv. label_set (Suc (Suc (length h0))) (fst kv) (snd kv)) kvs
           (h0 @ [ODict d, b, OInfo c]) =
         h0 @ [ODict (fold (\<lambda>kv. AList.update (fst kv) (snd kv)) kvs d), b, OInfo c]"
  using assms by (induction kvs arbitrary: d) (simp_all add: label_set_def get_cell_at dict_set_labels)

lemma fold_icon_set:
  assumes "c_icons c = Suc (length h0)"
  shows "fold (\<lambda>kv. icon_set (Suc (Suc (length h0))) (fst kv) (snd kv)) kvs
           (h0 @ [a, ODict d, OInfo c]) =
         h0 @ [a, ODict (fold (\<lambda>kv. AList.update (fst kv) (snd kv)) kvs d), OInfo c]"
  using assms by (induction kvs arbitrary: d) (simp_all add: icon_set_def get_cell_at dict_set_icons)

lemma when_match_at:
  "when_match m (\<lambda>m. upd_cell (Suc (Suc (length h0))) (F m)) (h0 @ [a, b, OInfo c]) =
     h0 @ [a, b, OInfo (case m of None \<Rightarrow> c | Some x \<Rightarrow> F x c)]"
  by (cases m) (simp_all add: when_match_def upd_cell_at)

lemma labels_of_at:
  "c_app_name_labels c = length h0 \<Longrightarrow>
   labels_of (h0 @ [ODict d, b, OInfo c]) (Suc (Suc (length h0))) = d"
  by (simp add: labels_of_def get_cell_at get_dict_labels)

lemma app_name_of_at:
  "app_name_of (h0 @ [a, b, OInfo c]) (Suc (Suc (length h0))) = c_app_name c"
  by (simp add: app_name_of_def get_cell_at)

lemma pref_loop_store_at:
  assumes "c_app_name_labels c = length h0" and "c_app_name c = []"
  shows "pref_loop_store (Suc (Suc (length h0))) prefs (h0 @ [ODict d, b, OInfo c]) =
           h0 @ [ODict d, b, OInfo (c\<lparr>c_app_name := pref_loop d prefs\<rparr>)]"
  using assms
  by (induction prefs)
    (simp_all add: labels_of_at upd_cell_at dict_get_def split: option.splits)

lemma upd_cell_pkg:
  "(case x of None \<Rightarrow> c
    | Some m \<Rightarrow> c\<lparr>c_package_name := g1 m, c_version_code := g2 m, c_version_name := g3 m\<rparr>) =
   c\<lparr>c_package_name := (case x of None \<Rightarrow> c_package_name c | Some m \<Rightarrow> g1 m),
     c_version_code := (case x of None \<Rightarrow> c_version_code c | Some m \<Rightarrow> g2 m),
     c_version_name := (case x of None \<Rightarrow> c_version_name c | Some m \<Rightarrow> g3 m)\<rparr>"
  by (cases x) simp_all

lemma upd_cell_fields:
  "(case x of None \<Rightarrow> c | Some m \<Rightarrow> c\<lparr>c_platform_build_version_name := g1 m\<rparr>) =
     c\<lparr>c_platform_build_version_name := (case x of None \<Rightarrow> c_platform_build_version_name c | Some m \<Rightarrow> g1 m)\<rparr>"
  "(case x of None \<Rightarrow> c | Some m \<Rightarrow> c\<lparr>c_platform_build_version_code := g1 m\<rparr>) =
     c\<lparr>c_platform_build_version_code := (case x of None \<Rightarrow> c_platform_build_version_code c | Some m \<Rightarrow> g1 m)\<rparr>"
  "(case x of None \<Rightarrow> c | Some m \<Rightarrow> c\<lparr>c_compile_sdk_version := g1 m\<rparr>) =
     c\<lparr>c_compile_sdk_version := (case x of None \<Rightarrow> c_compile_sdk_version c | Some m \<Rightarrow> g1 m)\<rparr>"
  "(case x of None \<Rightarrow> c | Some m \<Rightarrow> c\<lparr>c_compile_sdk_codename := g1 m\<rparr>) =
     c\<lparr>c_compile_sdk_codename := (case x of None \<Rightarrow> c_compile_sdk_codename c | Some m \<Rightarrow> g1 m)\<rparr>"
  "(case x of None \<Rightarrow> c | Some m \<Rightarrow> c\<lparr>c_min_sdk := g1 m\<rparr>) =
     c\<lparr>c_min_sdk := (case x of None \<Rightarrow> c_min_sdk c | Some m \<Rightarrow> g1 m)\<rparr>"
  "(case x of None \<Rightarrow> c | Some m \<Rightarrow> c\<lparr>c_target_sdk := g1 m\<rparr>) =
     c\<lparr>c_target_sdk := (case x of None \<Rightarrow> c_target_sdk c | Some m \<Rightarrow> g1 m)\<rparr>"
  "(case x of None \<Rightarrow> c | Some m \<Rightarrow> c\<lparr>c_launchable_activity := g1 m\<rparr>) =
     c\<lparr>c_launchable_activity := (case x of None \<Rightarrow> c_launchable_activity c | Some m \<Rightarrow> g1 m)\<rparr>"
  "(case x of None \<Rightarrow> c | Some m \<Rightarrow> c\<lparr>c_supports_screens := g2 m\<rparr>) =
     c\<lparr>c_supports_screens := (case x of None \<Rightarrow> c_supports_screens c | Some m \<Rightarrow> g2 m)\<rparr>"
  "(case x of None \<Rightarrow> c | Some m \<Rightarrow> c\<lparr>c_supports_any_density := g1 m\<rparr>) =
     c\<lparr>c_supports_any_density := (case x of None \<Rightarrow> c_supports_any_density c | Some m \<Rightarrow> g1 m)\<rparr>"
  "(case x of None \<Rightarrow> c | Some m \<Rightarrow> c\<lparr>c_densities := g2 m\<rparr>) =
     c\<lparr>c_densities := (case x of None \<Rightarrow> c_densities c | Some m \<Rightarrow> g2 m)\<rparr>"
  "(case x of None \<Rightarrow> c | Some m \<Rightarrow> c\<lparr>c_locales := g2 m\<rparr>) =
     c\<lparr>c_locales := (case x of None \<Rightarrow> c_locales c | Some m \<Rightarrow> g2 m)\<rparr>"
  "(if t then c\<lparr>c_app_name := n\<rparr> else c) = c\<lparr>c_app_name := (if t then n else c_app_name c)\<rparr>"
  by (cases x; simp)+

section \<open>The store after a call\<close>

lemma initial_cell_simps:
  "c_package_name (initial_cell l i t) = []"
  "c_version_name (initial_cell l i t) = []"
  "c_version_code (initial_cell l i t) = []"
  "c_platform_build_version_name (initial_cell l i t) = []"
  "c_platform_build_version_code (initial_cell l i t) = []"
  "c_compile_sdk_version (initial_cell l i t) = []"
  "c_compile_sdk_codename (initial_cell l i t) = []"
  "c_min_sdk (initial_cell l i t) = []"
  "c_target_sdk (initial_cell l i t) = []"
  "c_app_name (initial_cell l i t) = []"
  "c_launchable_activity (initial_cell l i t) = []"
  "c_permissions (initial_cell l i t) = []"
  "c_features (initial_cell l i t) = []"
  "c_implied_features (initial_cell l i t) = []"
  "c_supports_screens (initial_cell l i t) = []"
  "c_supports_any_density (initial_cell l i t) = []"
  "c_densities (initial_cell l i t) = []"
  "c_locales (initial_cell l i t) = []"
  "c_architectures (initial_cell l i t) = []"
  "c_app_name_labels (initial_cell l i t) = l"
  "c_icons (initial_cell l i t) = i"
  "c_raw (initial_cell l i t) = strip t"
  by (simp_all add: initial_cell_def)

lemma if_upd_cell:
  "(if t then upd_cell a f h else h) = upd_cell a (\<lambda>c. if t then f c else c) h"
  by (simp add: upd_cell_def split: pyobj.splits) (metis list_update_id)

lemmas store_simps = if_upd_cell new_obj_def when_match_at upd_cell_at fold_label_set fold_icon_set
  pref_loop_store_at labels_of_at app_name_of_at upd_cell_pkg upd_cell_fields
  initial_cell_simps

lemma parse_store_shape:
  "\<exists>c. parse_store W text h0 =
         (Suc (Suc (length h0)),
          h0 @ [ODict (store_all (findall2 (pat_label_loc W) text)),
                ODict (store_all (findall2 pat_icon text)), OInfo c]) \<and>
       c = cell_of (length h0) (Suc (length h0)) (parse_aapt2_output W text)"
  apply (simp add: parse_store_def Let_def store_simps store_all_def
      cong: option.case_cong if_cong del: pref_loop.simps pref_loop_store.simps split del: if_split)
  apply (rule cell.equality)
  apply (simp_all add: cell_of_def initial_cell_simps
      package_name_parse version_code_parse version_name_parse
      platform_build_version_name_parse platform_build_version_code_parse
      compile_sdk_version_parse compile_sdk_codename_parse min_sdk_parse target_sdk_parse
      app_name_parse launchable_activity_parse permissions_parse features_parse
      implied_features_parse supports_screens_parse supports_any_density_parse
      densities_parse locales_parse raw_parse architectures_parse store_all_def
      generic_label_of_def app_node_label_of_def
      cong: option.case_cong if_cong del: pref_loop.simps split del: if_split)
  done


lemma parse_store_result:
  "parse_store W text h0 =
     (Suc (Suc (length h0)),
      h0 @ [ODict (app_name_labels (parse_aapt2_output W text)),
            ODict (icons (parse_aapt2_output W text)),
            OInfo (cell_of (length h0) (Suc (length h0)) (parse_aapt2_output W text))])"
  using parse_store_shape [of W "text" h0] by (simp add: app_name_labels_parse icons_parse)

lemma read_info_cell_of:
  assumes "l < length h" and "i < length h" and "a < length h"
    and "h ! a = OInfo (cell_of l i r)"
    and "h ! l = ODict (app_name_labels r)" and "h ! i = ODict (icons r)"
  shows "read_info h a = Some r"
  using assms by (simp add: read_info_def get_cell_def get_dict_def cell_of_def)

lemma read_info_result:
  "read_info (h0 @ [ODict (app_name_labels r), ODict (icons r),
                    OInfo (cell_of (length h0) (Suc (length h0)) r)] @ rest)
     (Suc (Suc (length h0))) = Some r"
  by (rule read_info_cell_of [where l = "length h0" and i = "Suc (length h0)"])
    (simp_all add: nth_append)

text \<open>
  C8. A call changes no object that exists before it: the store that it leaves is the
  store that it finds, followed by the objects that the call makes. What a caller reads
  through the returned reference is the record that the parser computes from the text
  alone, whatever the store holds before the call. So two calls on the same text, the
  second one started in the store that the first one leaves, return two different
  references to equal records, and the second call, on any text, leaves what the first
  one returned as it is.
\<close>

theorem parse_no_side_effect:
  "(parse_store W text h = (r, h') \<longrightarrow>
      take (length h) h' = h \<and> length h \<le> r \<and>
      read_info h' r = Some (parse_aapt2_output W text)) \<and>
   (parse_store W text h = (r1, h1) \<and> parse_store W2 text2 h1 = (r2, h2) \<longrightarrow>
      r2 \<noteq> r1 \<and> take (length h) h2 = h \<and>
      read_info h2 r1 = Some (parse_aapt2_output W text) \<and>
      read_info h2 r2 = Some (parse_aapt2_output W2 text2))"
proof (intro conjI impI)
  assume a: "parse_store W text h = (r, h')"
  then have r: "r = Suc (Suc (length h))"
    and h': "h' = h @ [ODict (app_name_labels (parse_aapt2_output W text)),
                       ODict (icons (parse_aapt2_output W text)),
                       OInfo (cell_of (length h) (Suc (length h)) (parse_aapt2_output W text))]"
    by (simp_all add: parse_store_result)
  from h' show "take (length h) h' = h" by simp
  from r show "length h \<le> r" by simp
  from read_info_result [of h "parse_aapt2_output W text" "[]"] r h'
  show "read_info h' r = Some (parse_aapt2_output W text)" by simp
next
  assume a: "parse_store W text h = (r1, h1) \<and> parse_store W2 text2 h1 = (r2, h2)"
  then have r1: "r1 = Suc (Suc (length h))"
    and h1: "h1 = h @ [ODict (app_name_labels (parse_aapt2_output W text)),
                       ODict (icons (parse_aapt2_output W text)),
                       OInfo (cell_of (length h) (Suc (length h)) (parse_aapt2_output W text))]"
    by (simp_all add: parse_store_result)
  from a have r2: "r2 = Suc (Suc (length h1))"
    and h2: "h2 = h1 @ [ODict (app_name_labels (parse_aapt2_output W2 text2)),
                        ODict (icons (parse_aapt2_output W2 text2)),
                        OInfo (cell_of (length h1) (Suc (length h1)) (parse_aapt2_output W2 text2))]"
    by (simp_all add: parse_store_result)
  from r1 r2 h1 show "r2 \<noteq> r1" by simp
  from h1 h2 show "take (length h) h2 = h" by simp
  from read_info_result [of h "parse_aapt2_output W text"
      "[ODict (app_name_labels (parse_aapt2_output W2 text2)),
        ODict (icons (parse_aapt2_output W2 text2)),
        OInfo (cell_of (length h1) (Suc (length h1)) (parse_aapt2_output W2 text2))]"]
    r1 h1 h2
  show "read_info h2 r1 = Some (parse_aapt2_output W text)" by simp
  from read_info_result [of h1 "parse_aapt2_output W2 text2" "[]"] r2 h2
  show "read_info h2 r2 = Some (parse_aapt2_output W2 text2)" by simp
qed

theorem parse_no_side_effect_witness:
  "take 1 (snd (parse_store (\<lambda>c. False) (ords ''application-icon-48:'b.png'\<newline>'')
             (snd (parse_store (\<lambda>c. False) (ords ''application-icon-48:'a.png'\<newline>'')
                    [ODict [(ords ''48'', ords ''old'')]])))) =
     [ODict [(ords ''48'', ords ''old'')]] \<and>
   map_option icons
     (read_info
        (snd (parse_store (\<lambda>c. False) (ords ''application-icon-48:'b.png'\<newline>'')
               (snd (parse_store (\<lambda>c. False) (ords ''application-icon-48:'a.png'\<newline>'')
                      [ODict [(ords ''48'', ords ''old'')]]))))
        (fst (parse_store (\<lambda>c. False) (ords ''application-icon-48:'a.png'\<newline>'')
               [ODict [(ords ''48'', ords ''old'')]]))) =
     Some [(ords ''48'', ords ''a.png'')]"
  using parse_no_side_effect [of "\<lambda>c. False" "ords ''application-icon-48:'a.png'\<newline>''"
      "[ODict [(ords ''48'', ords ''old'')]]"
      "fst (parse_store (\<lambda>c. False) (ords ''application-icon-48:'a.png'\<newline>'')
               [ODict [(ords ''48'', ords ''old'')]])"
      "snd (parse_store (\<lambda>c. False) (ords ''application-icon-48:'a.png'\<newline>'')
               [ODict [(ords ''48'', ords ''old'')]])"
      "fst (parse_store (\<lambda>c. False) (ords ''application-icon-48:'a.png'\<newline>'')
               [ODict [(ords ''48'', ords ''old'')]])"
      "snd (parse_store (\<lambda>c. False) (ords ''application-icon-48:'a.png'\<newline>'')
               [ODict [(ords ''48'', ords ''old'')]])"
      "\<lambda>c. False" "ords ''application-icon-48:'b.png'\<newline>''"
      "fst (parse_store (\<lambda>c. False) (ords ''application-icon-48:'b.png'\<newline>'')
             (snd (parse_store (\<lambda>c. False) (ords ''application-icon-48:'a.png'\<newline>'')
                    [ODict [(ords ''48'', ords ''old'')]])))"
      "snd (parse_store (\<lambda>c. False) (ords ''application-icon-48:'b.png'\<newline>'')
             (snd (parse_store (\<lambda>c. False) (ords ''application-icon-48:'a.png'\<newline>'')
                    [ODict [(ords ''48'', ords ''old'')]])))"]
  by (simp add: icons_parse pat_icon_def eval_simps)

section \<open>All matches of a pattern with one value\<close>

lemma name_entry_app:
  assumes "is_blank ws" and "is_value v"
  shows "ms (pat_name mk) (name_entry mk ws v @ t) [] = [(t, [(1, v)])]"
proof -
  have n: "ords ''name='' = 110 # [97, 109, 101, 61]" by (simp add: ords_def)
  have s: "\<not> is_space 110" by (simp add: is_space_def)
  have "ms (pat_name mk) (name_entry mk ws v @ t) [] =
          ms (seqs [Plus sp, Lit (110 # [97, 109, 101, 61]), quote, Grp 1 (Plus nq), quote])
            (ws @ 110 # [97, 109, 101, 61] @ 39 # v @ 39 # t) []"
    unfolding pat_name_def name_entry_def n append_assoc by (simp only: seqs_Lit_app append.simps)
  also have "\<dots> = ms (seqs [Lit (110 # [97, 109, 101, 61]), quote, Grp 1 (Plus nq), quote])
            (110 # [97, 109, 101, 61] @ 39 # v @ 39 # t) []"
    using assms(1) s by (rule seqs_sp_Lit_app)
  also have "\<dots> = ms (seqs [quote, Grp 1 (Plus nq), quote]) (39 # v @ 39 # t) []"
    using seqs_Lit_app [of "110 # [97, 109, 101, 61]" quote "[Grp 1 (Plus nq), quote]"
        "39 # v @ 39 # t" "[]"]
    by simp
  also have "\<dots> = ms (seqs [Grp 1 (Plus nq), quote]) (v @ 39 # t) []"
    by (rule seqs_quote_app)
  also have "\<dots> = [(t, AList.update 1 v [])]"
    using assms(2) by (rule value_quote_last_app)
  finally show ?thesis by simp
qed

lemma name_entry_match:
  "is_blank ws \<Longrightarrow> is_value v \<Longrightarrow>
   match_at (pat_name mk) (name_entry mk ws v @ t) = Some (t, [(1, v)])"
  by (simp add: match_at_def name_entry_app)

lemma name_entry_E:
  assumes "(s', m) \<in> set (ms (pat_name mk) s [])"
  shows "\<exists>ws v. s = name_entry mk ws v @ s' \<and> is_blank ws \<and> is_value v \<and> m = [(1, v)]"
proof -
  from assms have f0: "(s', m) \<in> set (ms (seqs [Lit mk, Plus sp, Lit (ords ''name=''), quote,
      Grp 1 (Plus nq), quote]) s [])"
    by (simp only: pat_name_def)
  from f0 obtain t1 where e0: "s = mk @ t1"
    and f1: "(s', m) \<in> set (ms (seqs [Plus sp, Lit (ords ''name=''), quote,
      Grp 1 (Plus nq), quote]) t1 [])"
    by (rule seqs_Lit_E)
  from f1 obtain ws t2 where e1: "t1 = ws @ t2" and b: "is_blank ws"
    and f2: "(s', m) \<in> set (ms (seqs [Lit (ords ''name=''), quote, Grp 1 (Plus nq), quote]) t2 [])"
    by (rule seqs_sp_E)
  from quoted_after_E [OF f2] obtain v where e2: "t2 = ords ''name='' @ [39] @ v @ [39] @ s'"
    and v: "is_value v" and g: "group m 1 = v"
    by blast
  from f2 obtain t3 where "(s', m) \<in> set (ms (seqs [quote, Grp 1 (Plus nq), quote]) t3 [])"
    by (rule seqs_Lit_E)
  then obtain t4 where "(s', m) \<in> set (ms (seqs [Grp 1 (Plus nq), quote]) t4 [])"
    by (rule seqs_quote_E)
  then obtain v' t5 where "(s', m) \<in> set (ms (seqs [quote]) t5 (AList.update 1 v' []))"
    by (rule seqs_value_E)
  then have "(s', m) \<in> set (ms (Lit [39]) t5 (AList.update 1 v' []))" by (simp add: quote_def)
  from ms_Lit_E [OF this] have "m = [(1, v')]" by simp
  with g have "m = [(1, v)]" by (simp add: group_def)
  moreover have "s = name_entry mk ws v @ s'" by (simp add: name_entry_def e0 e1 e2)
  ultimately show ?thesis using b v by blast
qed

lemma name_entry_nonempty: "name_entry mk ws v \<noteq> []"
  by (simp add: name_entry_def)

lemma finditer_entries:
  "entries_ok mk es tail \<Longrightarrow>
   findall1 (pat_name mk) (entries_text mk es tail) = entry_values es"
proof (induction es)
  case Nil
  then show ?case by (simp add: findall1_None entry_values_def)
next
  case (Cons e es)
  let ?E = "name_entry mk (fst (snd e)) (snd (snd e))"
  let ?T = "entries_text mk es tail"
  from Cons.prems have b: "is_blank (fst (snd e))" and v: "is_value (snd (snd e))"
    and u: "unmatched (pat_name mk) (fst e) (?E @ ?T)" and ok: "entries_ok mk es tail"
    by simp_all
  have "finditer_from (pat_name mk) 0 (fst e @ ?E @ ?T) = finditer_from (pat_name mk) 0 (?E @ ?T)"
    using u by (rule finditer_unmatched)
  also have "\<dots> = [(1, snd (snd e))] # finditer_from (pat_name mk) 0 ?T"
    using name_entry_match [OF b v] name_entry_nonempty by (rule finditer_hit)
  finally have "findall1 (pat_name mk) (entries_text mk (e # es) tail) =
      snd (snd e) # findall1 (pat_name mk) ?T"
    by (simp add: findall1_def finditer_def group_def)
  with Cons.IH [OF ok] show ?case by (simp add: entry_values_def)
qed

lemma re_search_first:
  "re_search r text = Some m \<Longrightarrow>
   \<exists>pre s s'. text = pre @ s \<and> unmatched r pre s \<and> match_at r s = Some (s', m)"
proof (induction "text")
  case Nil
  then obtain s' where "match_at r [] = Some (s', m)" by (auto split: option.splits)
  then have "[] = [] @ [] \<and> unmatched r [] [] \<and> match_at r [] = Some (s', m)" by simp
  then show ?case by (intro exI)
next
  case (Cons x xs)
  show ?case
  proof (cases "match_at r (x # xs)")
    case None
    with Cons.prems have "re_search r xs = Some m" by simp
    from Cons.IH [OF this] obtain pre s s' where p: "xs = pre @ s" "unmatched r pre s"
      "match_at r s = Some (s', m)"
      by blast
    from None p(1) have "match_at r (x # pre @ s) = None" by simp
    with p have "x # xs = (x # pre) @ s \<and> unmatched r (x # pre) s \<and>
        match_at r s = Some (s', m)"
      by simp
    then show ?thesis by (intro exI)
  next
    case (Some p)
    with Cons.prems have "match_at r (x # xs) = Some (fst p, m)" by (cases p) simp
    then have "x # xs = [] @ (x # xs) \<and> unmatched r [] (x # xs) \<and>
        match_at r (x # xs) = Some (fst p, m)"
      by simp
    then show ?thesis by (intro exI)
  qed
qed

lemma entries_exist: "\<exists>es tail. text = entries_text mk es tail \<and> entries_ok mk es tail"
proof (induction "length text" arbitrary: "text" rule: less_induct)
  case less
  show ?case
  proof (cases "re_search (pat_name mk) text")
    case None
    then have "text = entries_text mk [] text \<and> entries_ok mk [] text" by simp
    then show ?thesis by (intro exI)
  next
    case (Some m)
    from re_search_first [OF Some] obtain pre s s' where t: "text = pre @ s"
      and u: "unmatched (pat_name mk) pre s" and ma: "match_at (pat_name mk) s = Some (s', m)"
      by blast
    from ma have "(s', m) \<in> set (ms (pat_name mk) s [])" by (rule match_at_Some_E)
    from name_entry_E [OF this] obtain ws v where s: "s = name_entry mk ws v @ s'"
      and b: "is_blank ws" and v: "is_value v"
      by blast
    from t s have "length s' < length text" by (simp add: name_entry_def)
    from less [OF this] obtain es tail where e: "s' = entries_text mk es tail"
      "entries_ok mk es tail"
      by blast
    from t s e b v u have "text = entries_text mk ((pre, ws, v) # es) tail \<and>
        entries_ok mk ((pre, ws, v) # es) tail"
      by simp
    then show ?thesis by (intro exI)
  qed
qed

lemma pat_name_patterns:
  "pat_permission = pat_name (ords ''uses-permission:'')"
  "pat_feature = pat_name (ords ''uses-feature:'')"
  "pat_implied = pat_name (ords ''uses-implied-feature:'')"
  by (simp_all add: pat_permission_def pat_feature_def pat_implied_def pat_name_def)

text \<open>
  C4. Every text is cut in one way at the matches of the pattern
  \<^verbatim>\<open>uses-permission:\s+name='([^']+)'\<close>: a gap in which no match starts, an occurrence with
  its value, and so on, up to a tail that has no match. The permissions are the values
  of the occurrences of this cut, in the order of the text, a value that occurs twice
  being listed twice. The same holds for the features and the implied features with
  their markers. On the text that holds \<open>uses-permission: name='P1'\<close> twice the
  permissions are \<open>P1\<close>, \<open>P1\<close>.
\<close>

theorem all_matches_in_order:
  "(\<exists>es tail. text = entries_text (ords ''uses-permission:'') es tail \<and>
       entries_ok (ords ''uses-permission:'') es tail \<and>
       permissions (parse_aapt2_output W text) = entry_values es) \<and>
   (\<exists>es tail. text = entries_text (ords ''uses-feature:'') es tail \<and>
       entries_ok (ords ''uses-feature:'') es tail \<and>
       features (parse_aapt2_output W text) = entry_values es) \<and>
   (\<exists>es tail. text = entries_text (ords ''uses-implied-feature:'') es tail \<and>
       entries_ok (ords ''uses-implied-feature:'') es tail \<and>
       implied_features (parse_aapt2_output W text) = entry_values es) \<and>
   (entries_ok (ords ''uses-permission:'') ps tail1 \<longrightarrow>
      permissions (parse_aapt2_output W (entries_text (ords ''uses-permission:'') ps tail1)) =
        entry_values ps) \<and>
   (entries_ok (ords ''uses-feature:'') fs tail2 \<longrightarrow>
      features (parse_aapt2_output W (entries_text (ords ''uses-feature:'') fs tail2)) =
        entry_values fs) \<and>
   (entries_ok (ords ''uses-implied-feature:'') ims tail3 \<longrightarrow>
      implied_features
        (parse_aapt2_output W (entries_text (ords ''uses-implied-feature:'') ims tail3)) =
        entry_values ims) \<and>
   permissions (parse_aapt2_output W
     (ords ''uses-permission: name='P1'\<newline>uses-permission: name='P1'\<newline>'')) =
     [ords ''P1'', ords ''P1'']"
proof (intro conjI impI)
  from entries_exist [of "text" "ords ''uses-permission:''"] obtain es tail
    where e: "text = entries_text (ords ''uses-permission:'') es tail"
      "entries_ok (ords ''uses-permission:'') es tail"
    by blast
  from finditer_entries [OF e(2)] e(1)
  have "permissions (parse_aapt2_output W text) = entry_values es"
    by (simp add: permissions_parse pat_name_patterns)
  with e have "text = entries_text (ords ''uses-permission:'') es tail \<and>
       entries_ok (ords ''uses-permission:'') es tail \<and>
       permissions (parse_aapt2_output W text) = entry_values es"
    by simp
  then show "\<exists>es tail. text = entries_text (ords ''uses-permission:'') es tail \<and>
       entries_ok (ords ''uses-permission:'') es tail \<and>
       permissions (parse_aapt2_output W text) = entry_values es"
    by (intro exI)
next
  from entries_exist [of "text" "ords ''uses-feature:''"] obtain es tail
    where e: "text = entries_text (ords ''uses-feature:'') es tail"
      "entries_ok (ords ''uses-feature:'') es tail"
    by blast
  from finditer_entries [OF e(2)] e(1)
  have "features (parse_aapt2_output W text) = entry_values es"
    by (simp add: features_parse pat_name_patterns)
  with e have "text = entries_text (ords ''uses-feature:'') es tail \<and>
       entries_ok (ords ''uses-feature:'') es tail \<and>
       features (parse_aapt2_output W text) = entry_values es"
    by simp
  then show "\<exists>es tail. text = entries_text (ords ''uses-feature:'') es tail \<and>
       entries_ok (ords ''uses-feature:'') es tail \<and>
       features (parse_aapt2_output W text) = entry_values es"
    by (intro exI)
next
  from entries_exist [of "text" "ords ''uses-implied-feature:''"] obtain es tail
    where e: "text = entries_text (ords ''uses-implied-feature:'') es tail"
      "entries_ok (ords ''uses-implied-feature:'') es tail"
    by blast
  from finditer_entries [OF e(2)] e(1)
  have "implied_features (parse_aapt2_output W text) = entry_values es"
    by (simp add: implied_features_parse pat_name_patterns)
  with e have "text = entries_text (ords ''uses-implied-feature:'') es tail \<and>
       entries_ok (ords ''uses-implied-feature:'') es tail \<and>
       implied_features (parse_aapt2_output W text) = entry_values es"
    by simp
  then show "\<exists>es tail. text = entries_text (ords ''uses-implied-feature:'') es tail \<and>
       entries_ok (ords ''uses-implied-feature:'') es tail \<and>
       implied_features (parse_aapt2_output W text) = entry_values es"
    by (intro exI)
next
  assume "entries_ok (ords ''uses-permission:'') ps tail1"
  from finditer_entries [OF this]
  show "permissions (parse_aapt2_output W (entries_text (ords ''uses-permission:'') ps tail1)) =
        entry_values ps"
    by (simp add: permissions_parse pat_name_patterns)
next
  assume "entries_ok (ords ''uses-feature:'') fs tail2"
  from finditer_entries [OF this]
  show "features (parse_aapt2_output W (entries_text (ords ''uses-feature:'') fs tail2)) =
        entry_values fs"
    by (simp add: features_parse pat_name_patterns)
next
  assume "entries_ok (ords ''uses-implied-feature:'') ims tail3"
  from finditer_entries [OF this]
  show "implied_features
        (parse_aapt2_output W (entries_text (ords ''uses-implied-feature:'') ims tail3)) =
        entry_values ims"
    by (simp add: implied_features_parse pat_name_patterns)
next
  show "permissions (parse_aapt2_output W
     (ords ''uses-permission: name='P1'\<newline>uses-permission: name='P1'\<newline>'')) =
     [ords ''P1'', ords ''P1'']"
    by (simp add: permissions_parse pat_permission_def eval_simps)
qed

theorem all_matches_in_order_witness:
  "permissions (parse_aapt2_output (\<lambda>c. False)
     (entries_text (ords ''uses-permission:'')
        [(ords ''sdk '', ords '' '', ords ''P1''), (ords ''\<newline>'', ords ''  '', ords ''P2''),
         (ords ''\<newline>'', ords '' '', ords ''P1'')]
        (ords ''\<newline>uses-permission: x''))) =
     [ords ''P1'', ords ''P2'', ords ''P1'']"
  using all_matches_in_order [of _ "\<lambda>c. False"
      "[(ords ''sdk '', ords '' '', ords ''P1''), (ords ''\<newline>'', ords ''  '', ords ''P2''),
        (ords ''\<newline>'', ords '' '', ords ''P1'')]"
      "ords ''\<newline>uses-permission: x''"]
  by (simp add: entry_values_def pat_name_def name_entry_def is_blank_def is_value_def
      eval_simps)

section \<open>A run of quoted tokens\<close>









section \<open>The tokens of a run\<close>










end
